theory Spec2Isabelle
  imports Main "HOL-Library.Sublist"
begin

section \<open>Common values\<close>

text \<open>
  A JavaScript \<^verbatim>\<open>Error\<close> carries its message.  A promise is modelled by the way it
  settles: it resolves with a value or it rejects with an error.
\<close>

datatype error = Error string

datatype 'a promise = Resolved 'a | Rejected error

section \<open>The notebook hook (useNotebookBase)\<close>

subsection \<open>Per-cell results and findErrors\<close>

text \<open>
  \<^verbatim>\<open>IThebeCellExecuteReturn\<close> is declared in thebe-core; the hook only reads its
  optional \<^verbatim>\<open>error\<close> field, a structured error object that is truthy whenever it
  is present.  The remaining fields are kept together in \<open>rest\<close>.
  \<^verbatim>\<open>IThebeNotebookError = IThebeCellExecuteReturn & { index: number }\<close> is the record
  extended by \<open>index\<close>.
\<close>

record ('a, 'e) IThebeCellExecuteReturn =
  rest :: 'a
  error :: "'e option"

record ('a, 'e) IThebeNotebookError = "('a, 'e) IThebeCellExecuteReturn" +
  index :: nat

text \<open>
  \<^verbatim>\<open>Array.prototype.reduce(callback, initialValue)\<close>: the callback receives the
  accumulator, the element and the element's index, from index 0 upwards.
\<close>

fun reduce_from :: "('b \<Rightarrow> 'a \<Rightarrow> nat \<Rightarrow> 'b) \<Rightarrow> 'b \<Rightarrow> nat \<Rightarrow> 'a list \<Rightarrow> 'b" where
  "reduce_from f acc i [] = acc"
| "reduce_from f acc i (x # xs) = reduce_from f (f acc x i) (Suc i) xs"

definition reduce :: "'a list \<Rightarrow> ('b \<Rightarrow> 'a \<Rightarrow> nat \<Rightarrow> 'b) \<Rightarrow> 'b \<Rightarrow> 'b" where
  "reduce xs f init = reduce_from f init 0 xs"

text \<open>The object spread \<^verbatim>\<open>{ ...retval, index }\<close>.\<close>

definition spread_index ::
  "('a, 'e) IThebeCellExecuteReturn \<Rightarrow> nat \<Rightarrow> ('a, 'e) IThebeNotebookError" where
  "spread_index retval i =
     IThebeCellExecuteReturn.extend retval (IThebeNotebookError.fields i)"

text \<open>
  \<^verbatim>\<open>
  export function findErrors(execReturns: (IThebeCellExecuteReturn | null)[]) {
    return execReturns.reduce<IThebeNotebookError[] | null>(
      (acc, retval: IThebeCellExecuteReturn | null, index) => {
        if (retval?.error) {
          if (acc == null) return [{ ...retval, index }];
          else return [...acc, { ...retval, index }];
        }
        return acc;
      },
      null,
    );
  }
  \<close>
\<close>

definition findErrors_step ::
  "('a, 'e) IThebeNotebookError list option \<Rightarrow> ('a, 'e) IThebeCellExecuteReturn option \<Rightarrow> nat
     \<Rightarrow> ('a, 'e) IThebeNotebookError list option" where
  "findErrors_step acc retval i =
     (case retval of
        None \<Rightarrow> acc
      | Some r \<Rightarrow>
          (case IThebeCellExecuteReturn.error r of
             None \<Rightarrow> acc
           | Some _ \<Rightarrow>
               (case acc of
                  None \<Rightarrow> Some [spread_index r i]
                | Some a \<Rightarrow> Some (a @ [spread_index r i]))))"

definition findErrors ::
  "('a, 'e) IThebeCellExecuteReturn option list \<Rightarrow> ('a, 'e) IThebeNotebookError list option" where
  "findErrors execReturns = reduce execReturns findErrors_step None"

text \<open>A result carries an error when it is not null and its \<open>error\<close> field is set.\<close>

definition carries_error :: "('a, 'e) IThebeCellExecuteReturn option \<Rightarrow> bool" where
  "carries_error retval =
     (case retval of None \<Rightarrow> False | Some r \<Rightarrow> IThebeCellExecuteReturn.error r \<noteq> None)"

subsection \<open>Collaborators: options, cells, the notebook object\<close>

text \<open>
  A \<^verbatim>\<open>() => void\<close> callback either returns or throws when it is invoked.
\<close>

datatype hook = Returns | Throws error

record NotebookExecuteOptions =
  stopOnError :: "bool option"
  before :: "hook option"
  after :: "hook option"
  preprocessor :: "(string \<Rightarrow> string) option"

record IThebeCell =
  cell_id :: string
  source :: string

text \<open>
  The notebook object of thebe-core, as far as this code uses it: its cells, the cell
  lookup by id, and the outcome of its two bulk execution methods.
  \<^verbatim>\<open>notebook.clear()\<close> returns nothing and is recorded in the trace below.
\<close>

record ('a, 'e) ThebeNotebook =
  cells :: "IThebeCell list"
  getCellById :: "string \<Rightarrow> IThebeCell option"
  nb_executeAll ::
    "bool \<Rightarrow> (string \<Rightarrow> string) option \<Rightarrow> ('a, 'e) IThebeCellExecuteReturn option list promise"
  nb_executeCells ::
    "string list \<Rightarrow> bool \<Rightarrow> (string \<Rightarrow> string) option
       \<Rightarrow> ('a, 'e) IThebeCellExecuteReturn option list promise"

subsection \<open>State and trace\<close>

text \<open>
  The trace lists, oldest first, what the hook did to the outside: the callbacks and
  notebook methods it invoked and the state setters it called.
\<close>

datatype ('a, 'e) action =
    CallBefore
  | CallAfter
  | CallExecuteAll bool "(string \<Rightarrow> string) option"
  | CallExecuteCells "string list" bool "(string \<Rightarrow> string) option"
  | CallClear
  | SetExecuting bool
  | SetExecuted bool
  | SetErrors "('a, 'e) IThebeNotebookError list option"

record ('a, 'e) NotebookBase =
  notebook :: "('a, 'e) ThebeNotebook option"
  executing :: bool
  executed :: bool
  errors :: "('a, 'e) IThebeNotebookError list option"
  trace :: "('a, 'e) action list"

definition initial :: "('a, 'e) NotebookBase" where
  "initial = \<lparr>notebook = None, executing = False, executed = False, errors = None, trace = []\<rparr>"

definition setNotebook ::
  "('a, 'e) ThebeNotebook \<Rightarrow> ('a, 'e) NotebookBase \<Rightarrow> ('a, 'e) NotebookBase" where
  "setNotebook nb s = s\<lparr>notebook := Some nb\<rparr>"

definition record_action ::
  "('a, 'e) action \<Rightarrow> ('a, 'e) NotebookBase \<Rightarrow> ('a, 'e) NotebookBase" where
  "record_action a s = s\<lparr>trace := trace s @ [a]\<rparr>"

definition setExecuting :: "bool \<Rightarrow> ('a, 'e) NotebookBase \<Rightarrow> ('a, 'e) NotebookBase" where
  "setExecuting b s = record_action (SetExecuting b) (s\<lparr>executing := b\<rparr>)"

definition setExecuted :: "bool \<Rightarrow> ('a, 'e) NotebookBase \<Rightarrow> ('a, 'e) NotebookBase" where
  "setExecuted b s = record_action (SetExecuted b) (s\<lparr>executed := b\<rparr>)"

definition setErrors ::
  "('a, 'e) IThebeNotebookError list option \<Rightarrow> ('a, 'e) NotebookBase \<Rightarrow> ('a, 'e) NotebookBase" where
  "setErrors errs s = record_action (SetErrors errs) (s\<lparr>errors := errs\<rparr>)"

text \<open>
  \<^verbatim>\<open>options?.before?.()\<close> and \<^verbatim>\<open>options?.after?.()\<close>: nothing happens when the hook is
  absent; a hook that throws ends the caller there.
\<close>

definition invoke ::
  "hook option \<Rightarrow> ('a, 'e) action \<Rightarrow> ('a, 'e) NotebookBase \<Rightarrow> error + ('a, 'e) NotebookBase" where
  "invoke h a s =
     (case h of
        None \<Rightarrow> Inr s
      | Some Returns \<Rightarrow> Inr (record_action a s)
      | Some (Throws e) \<Rightarrow> Inl e)"

text \<open>Optional chaining on the options object, with \<^verbatim>\<open>options?.stopOnError ?? true\<close>.\<close>

definition opt_before :: "NotebookExecuteOptions option \<Rightarrow> hook option" where
  "opt_before options = (case options of None \<Rightarrow> None | Some opts \<Rightarrow> before opts)"

definition opt_after :: "NotebookExecuteOptions option \<Rightarrow> hook option" where
  "opt_after options = (case options of None \<Rightarrow> None | Some opts \<Rightarrow> after opts)"

definition opt_preprocessor :: "NotebookExecuteOptions option \<Rightarrow> (string \<Rightarrow> string) option" where
  "opt_preprocessor options = (case options of None \<Rightarrow> None | Some opts \<Rightarrow> preprocessor opts)"

definition opt_stopOnError :: "NotebookExecuteOptions option \<Rightarrow> bool" where
  "opt_stopOnError options =
     (case options of
        None \<Rightarrow> True
      | Some opts \<Rightarrow> (case stopOnError opts of None \<Rightarrow> True | Some b \<Rightarrow> b))"

subsection \<open>executeAll, executeSome, clear\<close>

text \<open>
  The \<^verbatim>\<open>.then\<close> callback, the same text in executeAll and executeSome:
  \<^verbatim>\<open>
  (execReturns) => {
    options?.after?.();
    const errs = findErrors(execReturns);
    if (errs != null) setErrors(errs);
    setExecuted(true);
    setExecuting(false);
    return execReturns;
  }
  \<close>
  A throw inside the callback rejects the promise returned by \<^verbatim>\<open>.then\<close>; the state
  keeps what was set before the throw.
\<close>

definition on_execReturns ::
  "NotebookExecuteOptions option \<Rightarrow> ('a, 'e) IThebeCellExecuteReturn option list
     \<Rightarrow> ('a, 'e) NotebookBase
     \<Rightarrow> ('a, 'e) NotebookBase \<times> ('a, 'e) IThebeCellExecuteReturn option list promise" where
  "on_execReturns options execReturns s =
     (case invoke (opt_after options) CallAfter s of
        Inl e \<Rightarrow> (s, Rejected e)
      | Inr s1 \<Rightarrow>
          (let errs = findErrors execReturns;
               s2 = (if errs \<noteq> None then setErrors errs s1 else s1);
               s3 = setExecuted True s2;
               s4 = setExecuting False s3
           in (s4, Resolved execReturns)))"

text \<open>
  \<^verbatim>\<open>
  const executeAll = (options?: NotebookExecuteOptions) => {
    if (!notebook) throw new Error('executeAll called before notebook available');
    options?.before?.();
    setExecuting(true);
    return notebook
      .executeAll(options?.stopOnError ?? true, options?.preprocessor)
      .then((execReturns) => { ... });
  };
  \<close>
  \<open>Inl\<close> is a synchronous throw; \<open>Inr\<close> is the state after the run together with the
  way the returned promise settles.
\<close>

definition executeAll ::
  "NotebookExecuteOptions option \<Rightarrow> ('a, 'e) NotebookBase
     \<Rightarrow> error + ('a, 'e) NotebookBase \<times> ('a, 'e) IThebeCellExecuteReturn option list promise" where
  "executeAll options s =
     (case notebook s of
        None \<Rightarrow> Inl (Error ''executeAll called before notebook available'')
      | Some nb \<Rightarrow>
          (case invoke (opt_before options) CallBefore s of
             Inl e \<Rightarrow> Inl e
           | Inr s1 \<Rightarrow>
               (let s2 = setExecuting True s1;
                    stop = opt_stopOnError options;
                    pre = opt_preprocessor options;
                    s3 = record_action (CallExecuteAll stop pre) s2
                in (case nb_executeAll nb stop pre of
                      Rejected e \<Rightarrow> Inr (s3, Rejected e)
                    | Resolved execReturns \<Rightarrow> Inr (on_execReturns options execReturns s3)))))"

text \<open>
  \<^verbatim>\<open>
  const executeSome = (predicate: (cell: IThebeCell) => boolean, options?) => {
    if (!notebook) throw new Error('executeSome called before notebook available');
    options?.before?.();
    setExecuting(true);
    const filteredCells = notebook.cells.filter(predicate).map((c) => c.id);
    return notebook
      .executeCells(filteredCells, options?.stopOnError ?? true, options?.preprocessor)
      .then((execReturns) => { ... });
  };
  \<close>
\<close>

definition executeSome ::
  "(IThebeCell \<Rightarrow> bool) \<Rightarrow> NotebookExecuteOptions option \<Rightarrow> ('a, 'e) NotebookBase
     \<Rightarrow> error + ('a, 'e) NotebookBase \<times> ('a, 'e) IThebeCellExecuteReturn option list promise" where
  "executeSome predicate options s =
     (case notebook s of
        None \<Rightarrow> Inl (Error ''executeSome called before notebook available'')
      | Some nb \<Rightarrow>
          (case invoke (opt_before options) CallBefore s of
             Inl e \<Rightarrow> Inl e
           | Inr s1 \<Rightarrow>
               (let s2 = setExecuting True s1;
                    filteredCells = map cell_id (filter predicate (cells nb));
                    stop = opt_stopOnError options;
                    pre = opt_preprocessor options;
                    s3 = record_action (CallExecuteCells filteredCells stop pre) s2
                in (case nb_executeCells nb filteredCells stop pre of
                      Rejected e \<Rightarrow> Inr (s3, Rejected e)
                    | Resolved execReturns \<Rightarrow> Inr (on_execReturns options execReturns s3)))))"

text \<open>
  \<^verbatim>\<open>
  const clear = () => {
    if (!notebook) throw new Error('clear called before notebook available');
    notebook.clear();
    setExecuted(false);
  };
  \<close>
\<close>

definition clear :: "('a, 'e) NotebookBase \<Rightarrow> error + ('a, 'e) NotebookBase" where
  "clear s =
     (case notebook s of
        None \<Rightarrow> Inl (Error ''clear called before notebook available'')
      | Some nb \<Rightarrow> Inr (setExecuted False (record_action CallClear s)))"

section \<open>The session provider (ThebeSessionProvider)\<close>

subsection \<open>Collaborators: server and session objects\<close>

text \<open>
  The argument of \<^verbatim>\<open>server.startNewSession\<close>:
  \<^verbatim>\<open>{ ...config?.kernels, name, path: name }\<close>.  The spread contributes nothing when
  the configuration is undefined; \<open>name\<close> and \<open>path\<close> are written after the spread
  and so override whatever it carried under these keys.
\<close>

record 'k SessionOptions =
  kernels :: "'k option"
  name :: string
  path :: string

record 'k Config =
  config_kernels :: 'k

text \<open>
  A session object of thebe-core, as far as the provider uses it: its identity and the
  way its \<^verbatim>\<open>restart()\<close> and \<^verbatim>\<open>shutdown()\<close> promises settle.
\<close>

record ThebeSession =
  session_id :: string
  session_restart :: "unit promise"
  session_shutdown :: "unit promise"

text \<open>
  \<^verbatim>\<open>specs.kernelspecs\<close> is an object keyed by kernel name; it is kept as its entries in
  the order \<^verbatim>\<open>Object.keys\<close> enumerates them.
\<close>

record 'spec KernelSpecs =
  kernelspecs :: "(string \<times> 'spec) list"

record ('k, 'spec) ThebeServer =
  startNewSession :: "'k SessionOptions \<Rightarrow> ThebeSession option promise"
  getKernelSpecs :: "'spec KernelSpecs promise"

text \<open>What \<^verbatim>\<open>useThebeServer()\<close> hands to the provider.\<close>

record ('k, 'spec) ServerContext =
  config :: "'k Config option"
  server :: "('k, 'spec) ThebeServer option"
  serverReady :: bool

subsection \<open>State\<close>

text \<open>
  The requests lists, oldest first, the calls the provider made on the server and on
  session objects.
\<close>

datatype 'k request =
    StartNewSession "'k SessionOptions"
  | GetKernelSpecs
  | SessionRestart string
  | SessionShutdown string

record 'k SessionProvider =
  starting :: bool
  doRestart :: bool
  restarting :: bool
  session :: "ThebeSession option"
  ready :: bool
  error :: "string option"
  requests :: "'k request list"

definition request :: "'k request \<Rightarrow> 'k SessionProvider \<Rightarrow> 'k SessionProvider" where
  "request r s = s\<lparr>requests := requests s @ [r]\<rparr>"

text \<open>
  \<^verbatim>\<open>Object.keys(o)\<close>, and the conversion of an array of strings to a string inside a
  template literal (the elements joined by commas).
\<close>

definition Object_keys :: "(string \<times> 'v) list \<Rightarrow> string list" where
  "Object_keys entries = map fst entries"

fun join_comma :: "string list \<Rightarrow> string" where
  "join_comma [] = []"
| "join_comma [x] = x"
| "join_comma (x # y # ys) = x @ '','' @ join_comma (y # ys)"

subsection \<open>startSession and the context operations\<close>

text \<open>
  \<^verbatim>\<open>
  const startSession = () => {
    setStarting(true);
    server
      ?.startNewSession({ ...config?.kernels, name, path: name })
      .then((sesh: ThebeSession | null) => {
        setStarting(false);
        if (sesh == null) {
          server?.getKernelSpecs().then((specs) => {
            setError(
              `Could not start a session - available kernels: ${Object.keys(specs.kernelspecs)}`,
            );
          });
          return;
        }
        setSession(sesh);
        setReady(true);
      });
  };
  \<close>
  The function returns nothing and throws nothing; the callbacks run when the promises
  resolve, and a rejected promise runs no callback.  The model gives the state once
  the promises have settled.
\<close>

definition session_options :: "('k, 'spec) ServerContext \<Rightarrow> string \<Rightarrow> 'k SessionOptions" where
  "session_options ctx nm =
     \<lparr>kernels = (case config ctx of None \<Rightarrow> None | Some c \<Rightarrow> Some (config_kernels c)),
      name = nm, path = nm\<rparr>"

definition on_kernelSpecs :: "'spec KernelSpecs \<Rightarrow> 'k SessionProvider \<Rightarrow> 'k SessionProvider" where
  "on_kernelSpecs specs s =
     s\<lparr>SessionProvider.error :=
         Some (''Could not start a session - available kernels: ''
                 @ join_comma (Object_keys (kernelspecs specs)))\<rparr>"

definition on_session ::
  "('k, 'spec) ThebeServer \<Rightarrow> ThebeSession option \<Rightarrow> 'k SessionProvider \<Rightarrow> 'k SessionProvider" where
  "on_session srv sesh s =
     (let s1 = s\<lparr>starting := False\<rparr>
      in (case sesh of
            None \<Rightarrow>
              (let s2 = request GetKernelSpecs s1
               in (case getKernelSpecs srv of
                     Rejected e \<Rightarrow> s2
                   | Resolved specs \<Rightarrow> on_kernelSpecs specs s2))
          | Some sess \<Rightarrow> s1\<lparr>session := Some sess, ready := True\<rparr>))"

definition startSession ::
  "('k, 'spec) ServerContext \<Rightarrow> string \<Rightarrow> 'k SessionProvider \<Rightarrow> 'k SessionProvider" where
  "startSession ctx nm s =
     (let s1 = s\<lparr>starting := True\<rparr>
      in (case server ctx of
            None \<Rightarrow> s1
          | Some srv \<Rightarrow>
              (let s2 = request (StartNewSession (session_options ctx nm)) s1
               in (case startNewSession srv (session_options ctx nm) of
                     Rejected e \<Rightarrow> s2
                   | Resolved sesh \<Rightarrow> on_session srv sesh s2))))"

text \<open>
  \<^verbatim>\<open>
  start: async () => {
    if (!!session && ready) {
      await session.restart();
    } else {
      startSession();
    }
  },
  \<close>
  An async function returns a promise; it rejects when the awaited restart rejects.
\<close>

definition start ::
  "('k, 'spec) ServerContext \<Rightarrow> string \<Rightarrow> 'k SessionProvider \<Rightarrow> 'k SessionProvider \<times> unit promise" where
  "start ctx nm s =
     (case session s of
        Some sess \<Rightarrow>
          (if ready s
           then (request (SessionRestart (session_id sess)) s, session_restart sess)
           else (startSession ctx nm s, Resolved ()))
      | None \<Rightarrow> (startSession ctx nm s, Resolved ()))"

text \<open>
  \<^verbatim>\<open>
  restart: () => { setDoRestart(true); setRestarting(true); },
  \<close>
  and the effect that services the request:
  \<^verbatim>\<open>
  useEffect(() => {
    if (!doRestart) return;
    setDoRestart(false);
    if (session) {
      session?.restart().then(() => { setRestarting(false); });
    } else {
      setRestarting(false);
    }
  }, [doRestart]);
  \<close>
\<close>

definition restart :: "'k SessionProvider \<Rightarrow> 'k SessionProvider" where
  "restart s = s\<lparr>doRestart := True, restarting := True\<rparr>"

definition restart_effect :: "'k SessionProvider \<Rightarrow> 'k SessionProvider" where
  "restart_effect s =
     (if \<not> doRestart s then s
      else (let s1 = s\<lparr>doRestart := False\<rparr>
            in (case session s of
                  Some sess \<Rightarrow>
                    (let s2 = request (SessionRestart (session_id sess)) s1
                     in (case session_restart sess of
                           Rejected e \<Rightarrow> s2
                         | Resolved u \<Rightarrow> s2\<lparr>restarting := False\<rparr>))
                | None \<Rightarrow> s1\<lparr>restarting := False\<rparr>)))"

text \<open>
  \<^verbatim>\<open>
  shutdown: async () => {
    if (session) {
      await session.shutdown();
      setReady(false);
      setSession(undefined);
    }
  },
  \<close>
\<close>

definition shutdown :: "'k SessionProvider \<Rightarrow> 'k SessionProvider \<times> unit promise" where
  "shutdown s =
     (case session s of
        None \<Rightarrow> (s, Resolved ())
      | Some sess \<Rightarrow>
          (let s1 = request (SessionShutdown (session_id sess)) s
           in (case session_shutdown sess of
                 Rejected e \<Rightarrow> (s1, Rejected e)
               | Resolved u \<Rightarrow> (s1\<lparr>ready := False, session := None\<rparr>, Resolved ()))))"


section \<open>The cell user interface\<close>

subsection \<open>Elements and the page\<close>

text \<open>
  An element of the page: its own properties and its children in tree order.  The
  \<open>node\<close> number is the identity of the element object; references to elements held
  by other objects are node numbers.  An \<^verbatim>\<open>onclick\<close> callback is kept as a description
  of what it does.
\<close>

datatype handler = DebugLog string | RunCell string | RunAllCells | RestartKernel

record props =
  node :: nat
  tagName :: string
  attributes :: "(string \<times> string) list"
  classList :: "string list"
  textContent :: string
  onclick :: "handler option"
  visibility :: string

datatype element = Element (props: props) (children: "element list")

text \<open>
  Calls on collaborators outside the page: the construction of a CodeMirror editor in
  a host element (given with the text it shows), and \<^verbatim>\<open>cell.attachToDOM(element)\<close>.
\<close>

datatype effect = NewCodeMirror nat string | AttachToDOM string nat

text \<open>
  The page: the top-level elements of the document, the next unused node number, the
  collaborator calls made so far, the pending \<^verbatim>\<open>setTimeout\<close> callbacks (due time in
  milliseconds and the cell id to hide the indicator of) and the clock.  Node numbers
  of a page are taken to be distinct.
\<close>

record world =
  document :: "element list"
  next_node :: nat
  effects :: "effect list"
  timers :: "(nat \<times> string) list"
  now :: nat

fun descendants :: "element \<Rightarrow> element list" where
  "descendants (Element p cs) = concat (map (\<lambda>c. c # descendants c) cs)"

definition all_elements :: "element list \<Rightarrow> element list" where
  "all_elements doc = concat (map (\<lambda>e. e # descendants e) doc)"

fun update_node :: "nat \<Rightarrow> (element \<Rightarrow> element) \<Rightarrow> element \<Rightarrow> element" where
  "update_node h f (Element p cs) =
     (if node p = h then f (Element p cs) else Element p (map (update_node h f) cs))"

definition update_document :: "nat \<Rightarrow> (element \<Rightarrow> element) \<Rightarrow> world \<Rightarrow> world" where
  "update_document h f w = w\<lparr>document := map (update_node h f) (document w)\<rparr>"

definition createElement :: "string \<Rightarrow> world \<Rightarrow> element \<times> world" where
  "createElement t w =
     (Element \<lparr>node = next_node w, tagName = t, attributes = [], classList = [],
               textContent = [], onclick = None, visibility = []\<rparr> [],
      w\<lparr>next_node := Suc (next_node w)\<rparr>)"

definition classList_add :: "string list \<Rightarrow> element \<Rightarrow> element" where
  "classList_add tokens e =
     Element ((props e)\<lparr>classList := classList (props e)
                @ filter (\<lambda>t. t \<notin> set (classList (props e))) (remdups tokens)\<rparr>) (children e)"

definition getAttribute :: "string \<Rightarrow> element \<Rightarrow> string option" where
  "getAttribute k e = map_of (attributes (props e)) k"

definition setAttribute :: "string \<Rightarrow> string \<Rightarrow> element \<Rightarrow> element" where
  "setAttribute k v e =
     Element ((props e)\<lparr>attributes :=
        (if k \<in> fst ` set (attributes (props e))
         then map (\<lambda>(k', v'). if k' = k then (k', v) else (k', v')) (attributes (props e))
         else attributes (props e) @ [(k, v)])\<rparr>) (children e)"

definition set_textContent :: "string \<Rightarrow> element \<Rightarrow> element" where
  "set_textContent t e = Element ((props e)\<lparr>textContent := t\<rparr>) []"

definition set_onclick :: "handler \<Rightarrow> element \<Rightarrow> element" where
  "set_onclick h e = Element ((props e)\<lparr>onclick := Some h\<rparr>) (children e)"

definition set_visibility :: "string \<Rightarrow> element \<Rightarrow> element" where
  "set_visibility v e = Element ((props e)\<lparr>visibility := v\<rparr>) (children e)"

text \<open>\<^verbatim>\<open>parent.append(child)\<close> and \<^verbatim>\<open>parent.appendChild(child)\<close> for a fresh child.\<close>

definition append_child :: "element \<Rightarrow> element \<Rightarrow> element" where
  "append_child parent child = Element (props parent) (children parent @ [child])"

text \<open>
  \<^verbatim>\<open>old.replaceWith(new)\<close>: the element takes the place of the old one under its
  parent; nothing happens when the old element is not in the page.
\<close>

definition replaceWith :: "nat \<Rightarrow> element \<Rightarrow> world \<Rightarrow> world" where
  "replaceWith old new w = update_document old (\<lambda>_. new) w"

text \<open>
  \<^verbatim>\<open>document.getElementById(id)\<close>: the first element in tree order whose id attribute
  is the given, non-empty string.
\<close>

definition getElementById :: "string \<Rightarrow> element list \<Rightarrow> element option" where
  "getElementById i doc =
     (if i = [] then None
      else find (\<lambda>e. getAttribute ''id'' e = Some i) (all_elements doc))"

text \<open>
  \<^verbatim>\<open>element.getElementsByClassName(names)\<close>: the argument is a list of class names
  separated by white space; the result holds, in tree order, the descendants that
  have every one of these names in their class list, and is empty when no name is given.
\<close>

definition is_space :: "char \<Rightarrow> bool" where
  "is_space c = (c \<in> {CHR '' '', CHR 0x09, CHR 0x0A, CHR 0x0C, CHR 0x0D})"

fun tokens_from :: "string \<Rightarrow> string \<Rightarrow> string list" where
  "tokens_from cur [] = (if cur = [] then [] else [cur])"
| "tokens_from cur (c # cs) =
     (if is_space c then (if cur = [] then [] else [cur]) @ tokens_from [] cs
      else tokens_from (cur @ [c]) cs)"

definition class_names :: "string \<Rightarrow> string list" where
  "class_names names = tokens_from [] names"

definition getElementsByClassName :: "string \<Rightarrow> element \<Rightarrow> element list" where
  "getElementsByClassName names e =
     (if class_names names = [] then []
      else filter (\<lambda>d. set (class_names names) \<subseteq> set (classList (props d))) (descendants e))"

subsection \<open>The busy indicator\<close>

text \<open>
  \<^verbatim>\<open>
  function buildButtonBusySpinner(parent: Element) {
    const outer = document.createElement('div');
    outer.classList.add('thebe-busy');
    const inner = document.createElement('div');
    inner.classList.add('thebe-busy-spinner');
    outer.appendChild(inner);
    parent.append(outer);
    return outer;
  }
  \<close>
  The parent is given and returned as a value: the functions that build the cell work
  on a box that is not yet part of the page.
\<close>

definition buildButtonBusySpinner :: "element \<Rightarrow> world \<Rightarrow> element \<times> element \<times> world" where
  "buildButtonBusySpinner parent w =
     (let (outer0, w1) = createElement ''div'' w;
          outer1 = classList_add [''thebe-busy''] outer0;
          (inner0, w2) = createElement ''div'' w1;
          inner = classList_add [''thebe-busy-spinner''] inner0;
          outer = append_child outer1 inner
      in (outer, append_child parent outer, w2))"

text \<open>
  \<^verbatim>\<open>
  function getButtonsBusy(id: string) {
    const cell = document.getElementById(id);
    console.log('cell', cell);
    const busy = cell?.getElementsByClassName('.thebe-busy').item(0);
    console.log('busy', busy);
    if (!busy) return;
    return busy as HTMLElement;
  }
  export function setButtonsBusy(id: string) {
    const busy = getButtonsBusy(id);
    if (busy) busy.style.visibility = 'visible';
  }
  export function clearButtonsBusy(id: string) {
    setTimeout(() => {
      const busy = getButtonsBusy(id);
      if (busy) busy.style.visibility = 'hidden';
    }, 3000);
  }
  \<close>
  Console output is left out.
\<close>

definition getButtonsBusy :: "string \<Rightarrow> world \<Rightarrow> element option" where
  "getButtonsBusy i w =
     (case getElementById i (document w) of
        None \<Rightarrow> None
      | Some cell \<Rightarrow>
          (case getElementsByClassName ''.thebe-busy'' cell of
             [] \<Rightarrow> None
           | busy # _ \<Rightarrow> Some busy))"

definition setButtonsBusy :: "string \<Rightarrow> world \<Rightarrow> world" where
  "setButtonsBusy i w =
     (case getButtonsBusy i w of
        None \<Rightarrow> w
      | Some busy \<Rightarrow> update_document (node (props busy)) (set_visibility ''visible'') w)"

definition hide_busy :: "string \<Rightarrow> world \<Rightarrow> world" where
  "hide_busy i w =
     (case getButtonsBusy i w of
        None \<Rightarrow> w
      | Some busy \<Rightarrow> update_document (node (props busy)) (set_visibility ''hidden'') w)"

definition clearButtonsBusy :: "string \<Rightarrow> world \<Rightarrow> world" where
  "clearButtonsBusy i w = w\<lparr>timers := timers w @ [(now w + 3000, i)]\<rparr>"

text \<open>
  The passing of \<open>ms\<close> milliseconds: the callbacks that have become due run in the
  order in which they were scheduled, the others stay pending.
\<close>

definition elapse :: "nat \<Rightarrow> world \<Rightarrow> world" where
  "elapse ms w =
     (let t = now w + ms;
          due = filter (\<lambda>(d, i). d \<le> t) (timers w);
          pending = filter (\<lambda>(d, i). \<not> d \<le> t) (timers w)
      in fold (\<lambda>(d, i). hide_busy i) due (w\<lparr>now := t, timers := pending\<rparr>))"


subsection \<open>Building the cells\<close>

text \<open>
  The options this code reads.  \<open>cm_isReadOnly\<close> is the answer of \<^verbatim>\<open>cm.isReadOnly()\<close>
  for the editor configured from \<^verbatim>\<open>options.codeMirrorConfig\<close>.
\<close>

record Options =
  mountRunButton :: bool
  mountRunAllButton :: bool
  mountRestartButton :: bool
  mountRestartallButton :: bool
  cm_isReadOnly :: bool

text \<open>
  \<^verbatim>\<open>
  export interface CellDOMItem {
    id: string;
    placeholders: { source: Element; output?: Element; };
    ui?: {
      cell: Element; editor: Element; output?: Element;
      buttons: { run?: Element; runAll?: Element; restart?: Element; retartAll?: Element; };
    };
  }
  \<close>
\<close>

record Placeholders =
  ph_source :: nat
  ph_output :: "nat option"

record Buttons =
  btn_run :: "nat option"
  btn_runAll :: "nat option"
  btn_restart :: "nat option"
  btn_restartAll :: "nat option"

record UI =
  ui_cell :: nat
  ui_editor :: nat
  ui_output :: "nat option"
  ui_buttons :: Buttons

record CellDOMItem =
  item_id :: string
  placeholders :: Placeholders
  ui :: "UI option"

text \<open>
  \<^verbatim>\<open>
  function buildButton(parent, classSlug, text, title, onClickCb?) {
    const btn = document.createElement('button');
    btn.classList.add('thebe-button', `thebe-${classSlug}-button`);
    btn.textContent = text;
    btn.setAttribute('title', title);
    btn.onclick = onClickCb ?? (() => console.debug(`thebe:${classSlug}`));
    parent.append(btn);
    return btn;
  }
  \<close>
\<close>

definition buildButton ::
  "element \<Rightarrow> string \<Rightarrow> string \<Rightarrow> string \<Rightarrow> handler option \<Rightarrow> world
     \<Rightarrow> element \<times> element \<times> world" where
  "buildButton parent classSlug text title onClickCb w =
     (let (btn0, w1) = createElement ''button'' w;
          btn1 = classList_add [''thebe-button'', ''thebe-'' @ classSlug @ ''-button''] btn0;
          btn2 = set_textContent text btn1;
          btn3 = setAttribute ''title'' title btn2;
          btn = set_onclick
                  (case onClickCb of Some h \<Rightarrow> h | None \<Rightarrow> DebugLog (''thebe:'' @ classSlug)) btn3
      in (btn, append_child parent btn, w1))"

text \<open>
  setupCodemirror constructs the CodeMirror editor in the editor element, showing the
  cell's source; when the editor is read-only it marks the elements of the user
  interface the item already holds:
  \<^verbatim>\<open>
  if (cm.isReadOnly()) {
    cm.display.lineDiv.setAttribute('data-readonly', 'true');
    item.ui?.editor.setAttribute('data-readonly', 'true');
    item.ui?.cell.setAttribute('data-readonly', 'true');
  }
  \<close>
  The editor's own elements, its key bindings and its language mode belong to
  CodeMirror and are not part of the page modelled here.
\<close>

definition setupCodemirror :: "Options \<Rightarrow> CellDOMItem \<Rightarrow> IThebeCell \<Rightarrow> element \<Rightarrow> world \<Rightarrow> world" where
  "setupCodemirror options item cell el w =
     (let w1 = w\<lparr>effects := effects w @ [NewCodeMirror (node (props el)) (source cell)]\<rparr>
      in if cm_isReadOnly options
         then (case ui item of
                 None \<Rightarrow> w1
               | Some u \<Rightarrow>
                   update_document (ui_cell u) (setAttribute ''data-readonly'' ''true'')
                     (update_document (ui_editor u) (setAttribute ''data-readonly'' ''true'') w1))
         else w1)"

text \<open>
  buildCellUI: the box of a cell is built apart from the page (editor, the mounted
  buttons, the busy indicator, and a new output element when the item has no output
  placeholder), then takes the place of the source placeholder, and the cell is
  attached to the output element:
  \<^verbatim>\<open>
  const box = document.createElement('div');
  box.classList.add('thebe-cell');
  box.setAttribute('id', item.id);
  const editor = document.createElement('div');
  editor.classList.add('thebe-input');
  box.append(editor);
  const { execute } = setupCodemirror(options, item, cell, editor);
  let run, runAll, restart, restartAll;
  if (options.mountRunButton)
    run = buildButton(box, 'run', 'run', 'run this cell', async () => { ... });
  if (options.mountRunAllButton)
    runAll = buildButton(box, 'runall', 'run all', 'run all cells', async () => { ... });
  if (options.mountRestartButton)
    restart = buildButton(box, 'restart', 'restart', 'restart the kernel', async () => { ... });
  if (options.mountRestartallButton)
    restartAll = buildButton(box, 'restartall', 'restart & run all',
      'restart the kernel and run all cells');
  buildButtonBusySpinner(box);
  let output = item.placeholders.output;
  if (output) { ... } else {
    output = document.createElement('div');
    output.classList.add('thebe-output');
    box.append(output);
  }
  item.placeholders.source.replaceWith(box);
  cell.attachToDOM(output as HTMLElement);
  return { ...item, ui: { cell: box, editor, output, buttons: { run, runAll, restart, restartAll } } };
  \<close>
\<close>

definition mount_button ::
  "bool \<Rightarrow> element \<Rightarrow> string \<Rightarrow> string \<Rightarrow> string \<Rightarrow> handler option \<Rightarrow> world
     \<Rightarrow> nat option \<times> element \<times> world" where
  "mount_button mounted parent classSlug text title onClickCb w =
     (if mounted
      then (let (btn, parent', w') = buildButton parent classSlug text title onClickCb w
            in (Some (node (props btn)), parent', w'))
      else (None, parent, w))"

definition buildCellUI ::
  "Options \<Rightarrow> CellDOMItem \<Rightarrow> ('a, 'e) ThebeNotebook \<Rightarrow> IThebeCell \<Rightarrow> world \<Rightarrow> CellDOMItem \<times> world" where
  "buildCellUI options item nb cell w =
     (let (box0, w1) = createElement ''div'' w;
          box1 = setAttribute ''id'' (item_id item) (classList_add [''thebe-cell''] box0);
          (editor0, w2) = createElement ''div'' w1;
          editor = classList_add [''thebe-input''] editor0;
          box2 = append_child box1 editor;
          w3 = setupCodemirror options item cell editor w2;
          (run, box3, w4) =
            mount_button (mountRunButton options) box2 ''run'' ''run'' ''run this cell''
              (Some (RunCell (cell_id cell))) w3;
          (runAll, box4, w5) =
            mount_button (mountRunAllButton options) box3 ''runall'' ''run all'' ''run all cells''
              (Some RunAllCells) w4;
          (restart, box5, w6) =
            mount_button (mountRestartButton options) box4 ''restart'' ''restart''
              ''restart the kernel'' (Some RestartKernel) w5;
          (restartAll, box6, w7) =
            mount_button (mountRestartallButton options) box5 ''restartall'' ''restart & run all''
              ''restart the kernel and run all cells'' None w6;
          (busy, box7, w8) = buildButtonBusySpinner box6 w7;
          (output, box, w9) =
            (case ph_output (placeholders item) of
               Some out \<Rightarrow> (out, box7, w8)
             | None \<Rightarrow>
                 (let (out0, w') = createElement ''div'' w8;
                      out = classList_add [''thebe-output''] out0
                  in (node (props out), append_child box7 out, w')));
          w10 = replaceWith (ph_source (placeholders item)) box w9;
          w11 = w10\<lparr>effects := effects w10 @ [AttachToDOM (cell_id cell) output]\<rparr>
      in (item\<lparr>ui := Some \<lparr>ui_cell = node (props box), ui_editor = node (props editor),
                               ui_output = Some output,
                               ui_buttons = \<lparr>btn_run = run, btn_runAll = runAll,
                                             btn_restart = restart, btn_restartAll = restartAll\<rparr>\<rparr>\<rparr>,
          w11))"

text \<open>
  \<^verbatim>\<open>
  export function renderAllCells(options: Options, notebook: ThebeNotebook, items: CellDOMItem[]) {
    return items.map((item) => {
      const cell = notebook.getCellById(item.id);
      if (!cell) return item;
      return buildCellUI(options, item, notebook, cell);
    });
  }
  \<close>
  The items are visited in order; the page is passed from one to the next.
\<close>

definition render_cell ::
  "Options \<Rightarrow> ('a, 'e) ThebeNotebook \<Rightarrow> CellDOMItem \<Rightarrow> world \<Rightarrow> CellDOMItem \<times> world" where
  "render_cell options nb item w =
     (case getCellById nb (item_id item) of
        None \<Rightarrow> (item, w)
      | Some cell \<Rightarrow> buildCellUI options item nb cell w)"

fun renderAllCells ::
  "Options \<Rightarrow> ('a, 'e) ThebeNotebook \<Rightarrow> CellDOMItem list \<Rightarrow> world \<Rightarrow> CellDOMItem list \<times> world" where
  "renderAllCells options nb [] w = ([], w)"
| "renderAllCells options nb (item # items) w =
     (let (item', w1) = render_cell options nb item w;
          (items', w2) = renderAllCells options nb items w1
      in (item' # items', w2))"

section \<open>The notebook of thebe-core\<close>

text \<open>
  Modelled from the spec: the methods \<^verbatim>\<open>executeAll\<close>, \<^verbatim>\<open>executeCells\<close> and
  \<^verbatim>\<open>getCellById\<close> of thebe-core's ThebeNotebook, whose code is not among the source
  files.  The spec says of them: \<^verbatim>\<open>executeAll(stopOnError, preprocessor?)\<close> gives a
  list of one result or null per cell, in notebook order; with stop-on-error the
  results up to and including the first failing cell are populated and the later ones
  are null; without it every cell has a result; the preprocessor is applied to a
  cell's source immediately before it is sent for execution;
  \<^verbatim>\<open>executeCells(ids, stopOnError, preprocessor?)\<close> is the same, restricted to the
  cells with the given ids, in notebook order.  The kernel \<open>kern\<close> is a function from the
  source sent to the error it reports, if any; a result keeps the id of its cell.
\<close>

definition execute_cell ::
  "(string \<Rightarrow> 'e option) \<Rightarrow> (string \<Rightarrow> string) option \<Rightarrow> IThebeCell
     \<Rightarrow> (string, 'e) IThebeCellExecuteReturn" where
  "execute_cell kern pre c =
     \<lparr>rest = cell_id c,
      IThebeCellExecuteReturn.error = kern (case pre of None \<Rightarrow> source c | Some f \<Rightarrow> f (source c))\<rparr>"

text \<open>
  Modelled from the spec: the results of a bulk execution over a list of cells, with
  null for every cell after the first failure under stop-on-error.
\<close>

fun execute_cells ::
  "(string \<Rightarrow> 'e option) \<Rightarrow> bool \<Rightarrow> (string \<Rightarrow> string) option \<Rightarrow> IThebeCell list
     \<Rightarrow> (string, 'e) IThebeCellExecuteReturn option list" where
  "execute_cells kern stop pre [] = []"
| "execute_cells kern stop pre (c # cs) =
     (let r = execute_cell kern pre c
      in Some r #
         (if stop \<and> IThebeCellExecuteReturn.error r \<noteq> None then map (\<lambda>_. None) cs
          else execute_cells kern stop pre cs))"

text \<open>
  Modelled from the spec: the notebook object over a kernel and a list of cells;
  \<^verbatim>\<open>getCellById\<close> gives the first cell with the id, \<^verbatim>\<open>executeAll\<close> runs every cell,
  \<^verbatim>\<open>executeCells\<close> the cells whose id is among the given ones.
\<close>

definition spec_notebook ::
  "(string \<Rightarrow> 'e option) \<Rightarrow> IThebeCell list \<Rightarrow> (string, 'e) ThebeNotebook" where
  "spec_notebook kern cs =
     \<lparr>cells = cs,
      getCellById = (\<lambda>i. find (\<lambda>c. cell_id c = i) cs),
      nb_executeAll = (\<lambda>stop pre. Resolved (execute_cells kern stop pre cs)),
      nb_executeCells =
        (\<lambda>ids stop pre. Resolved (execute_cells kern stop pre (filter (\<lambda>c. cell_id c \<in> set ids) cs)))\<rparr>"


section \<open>Example data\<close>

text \<open>A notebook object whose bulk execution methods resolve with the given results.\<close>

definition stub_notebook ::
  "IThebeCell list \<Rightarrow> ('a, 'e) IThebeCellExecuteReturn option list \<Rightarrow> ('a, 'e) ThebeNotebook" where
  "stub_notebook cs rs =
     \<lparr>cells = cs,
      getCellById = (\<lambda>i. find (\<lambda>c. cell_id c = i) cs),
      nb_executeAll = (\<lambda>stop pre. Resolved rs),
      nb_executeCells = (\<lambda>ids stop pre. Resolved rs)\<rparr>"

definition example_cells :: "IThebeCell list" where
  "example_cells =
     [\<lparr>cell_id = ''a'', source = ''x = 1''\<rparr>,
      \<lparr>cell_id = ''b'', source = ''y = 2''\<rparr>,
      \<lparr>cell_id = ''c'', source = ''raise''\<rparr>]"

definition example_kernel :: "string \<Rightarrow> string option" where
  "example_kernel src = (if src = ''raise'' then Some ''Exception'' else None)"

definition ok_a :: "(string, string) IThebeCellExecuteReturn" where
  "ok_a = \<lparr>rest = ''a'', IThebeCellExecuteReturn.error = None\<rparr>"

definition failed_b :: "(string, string) IThebeCellExecuteReturn" where
  "failed_b = \<lparr>rest = ''b'', IThebeCellExecuteReturn.error = Some ''Exception''\<rparr>"

definition failed_c :: "(string, string) IThebeCellExecuteReturn" where
  "failed_c = \<lparr>rest = ''c'', IThebeCellExecuteReturn.error = Some ''Exception''\<rparr>"

definition in_a_c :: "IThebeCell \<Rightarrow> bool" where
  "in_a_c c = (cell_id c = ''a'' \<or> cell_id c = ''c'')"


text \<open>A notebook object whose bulk execution methods reject.\<close>

definition rejecting_notebook :: "(string, string) ThebeNotebook" where
  "rejecting_notebook =
     \<lparr>cells = example_cells,
      getCellById = (\<lambda>i. find (\<lambda>c. cell_id c = i) example_cells),
      nb_executeAll = (\<lambda>stop pre. Rejected (Error ''kernel died'')),
      nb_executeCells = (\<lambda>ids stop pre. Rejected (Error ''kernel died''))\<rparr>"

definition hooked_options :: NotebookExecuteOptions where
  "hooked_options =
     \<lparr>stopOnError = None, before = Some Returns, after = Some Returns, preprocessor = None\<rparr>"

text \<open>A state as a run leaves it in which cell b failed, with the trace emptied.\<close>

definition failed_run_state :: "(string, string) NotebookBase" where
  "failed_run_state =
     \<lparr>notebook = Some (stub_notebook example_cells [Some ok_a, Some failed_b, None]),
      executing = False, executed = True, errors = Some [spread_index failed_b 1], trace = []\<rparr>"



definition no_server_context :: "(string, string) ServerContext" where
  "no_server_context = \<lparr>config = None, server = None, serverReady = False\<rparr>"

definition idle_provider :: "string SessionProvider" where
  "idle_provider =
     \<lparr>starting = False, doRestart = False, restarting = False, session = None, ready = False,
      error = None, requests = []\<rparr>"

definition example_session :: ThebeSession where
  "example_session =
     \<lparr>session_id = ''s1'', session_restart = Resolved (), session_shutdown = Resolved ()\<rparr>"

text \<open>A server that gives a session, and the provider once that session is ready.\<close>

definition example_server :: "(string, string) ThebeServer" where
  "example_server =
     \<lparr>startNewSession = (\<lambda>opts. Resolved (Some example_session)),
      getKernelSpecs = Resolved \<lparr>kernelspecs = [(''python3'', ''Python 3'')]\<rparr>\<rparr>"

definition example_context :: "(string, string) ServerContext" where
  "example_context =
     \<lparr>config = Some \<lparr>config_kernels = ''python3''\<rparr>, server = Some example_server,
      serverReady = True\<rparr>"

definition ready_provider :: "string SessionProvider" where
  "ready_provider =
     \<lparr>starting = False, doRestart = False, restarting = False, session = Some example_session,
      ready = True, error = None, requests = []\<rparr>"

text \<open>A page with one source placeholder, and two items: one of a cell, one of no cell.\<close>

definition example_options :: Options where
  "example_options =
     \<lparr>mountRunButton = True, mountRunAllButton = False, mountRestartButton = False,
      mountRestartallButton = False, cm_isReadOnly = False\<rparr>"

definition example_page :: world where
  "example_page =
     \<lparr>document =
        [Element \<lparr>node = 0, tagName = ''pre'', attributes = [(''data-executable'', ''true'')],
                  classList = [], textContent = ''x = 1'', onclick = None, visibility = []\<rparr> []],
      next_node = 1, effects = [], timers = [], now = 0\<rparr>"

definition example_item :: CellDOMItem where
  "example_item =
     \<lparr>item_id = ''a'', placeholders = \<lparr>ph_source = 0, ph_output = None\<rparr>, ui = None\<rparr>"

definition stray_item :: CellDOMItem where
  "stray_item =
     \<lparr>item_id = ''z'', placeholders = \<lparr>ph_source = 7, ph_output = None\<rparr>, ui = None\<rparr>"

definition example_notebook :: "(string, string) ThebeNotebook" where
  "example_notebook = spec_notebook example_kernel example_cells"

definition rendered_page :: world where
  "rendered_page =
     snd (renderAllCells example_options (stub_notebook example_cells ([] :: (string, string) IThebeCellExecuteReturn option list))
            [example_item] example_page)"

section \<open>Properties of findErrors\<close>

lemma reduce_from_snoc:
  "reduce_from f acc k (xs @ [x]) = f (reduce_from f acc k xs) x (k + length xs)"
  by (induction xs arbitrary: acc k) simp_all

lemma findErrors_snoc:
  "findErrors (rs @ [r]) = findErrors_step (findErrors rs) r (length rs)"
  by (simp add: findErrors_def reduce_def reduce_from_snoc)

lemma findErrors_Nil: "findErrors [] = None"
  by (simp add: findErrors_def reduce_def)

lemma failing_indices_snoc:
  "filter (\<lambda>i. carries_error ((rs @ [r]) ! i)) [0..<length (rs @ [r])] =
     filter (\<lambda>i. carries_error (rs ! i)) [0..<length rs] @ (if carries_error r then [length rs] else [])"
proof -
  have "filter (\<lambda>i. carries_error ((rs @ [r]) ! i)) [0..<length rs] =
        filter (\<lambda>i. carries_error (rs ! i)) [0..<length rs]"
    by (rule filter_cong) (simp_all add: nth_append)
  then show ?thesis by simp
qed

lemma failing_entries_snoc:
  "map (\<lambda>i. spread_index (the ((rs @ [r]) ! i)) i) (filter (\<lambda>i. carries_error (rs ! i)) [0..<length rs]) =
   map (\<lambda>i. spread_index (the (rs ! i)) i) (filter (\<lambda>i. carries_error (rs ! i)) [0..<length rs])"
  by (rule map_cong) (simp_all add: nth_append)

text \<open>
  The value of findErrors in closed form: the positions of the results that carry an
  error, in ascending order, each with its result extended by the position; null when
  there is none.
\<close>

lemma findErrors_char:
  "findErrors rs =
     (let idxs = filter (\<lambda>i. carries_error (rs ! i)) [0..<length rs]
      in if idxs = [] then None else Some (map (\<lambda>i. spread_index (the (rs ! i)) i) idxs))"
proof (induction rs rule: rev_induct)
  case Nil
  show ?case by (simp add: findErrors_Nil)
next
  case (snoc r rs)
  define idxs where "idxs = filter (\<lambda>i. carries_error (rs ! i)) [0..<length rs]"
  define ents where "ents = map (\<lambda>i. spread_index (the (rs ! i)) i) idxs"
  have IH: "findErrors rs = (if idxs = [] then None else Some ents)"
    using snoc.IH by (simp add: idxs_def ents_def Let_def)
  have old: "map (\<lambda>i. spread_index (the ((rs @ [r]) ! i)) i) idxs = ents"
    unfolding ents_def idxs_def by (rule failing_entries_snoc)
  show ?case
  proof (cases "carries_error r")
    case False
    then have "findErrors_step (findErrors rs) r (length rs) = findErrors rs"
      by (auto simp: findErrors_step_def carries_error_def split: option.splits)
    with False show ?thesis
      unfolding findErrors_snoc Let_def failing_indices_snoc
      by (simp add: IH old flip: idxs_def)
  next
    case True
    then obtain x where r: "r = Some x" and "IThebeCellExecuteReturn.error x \<noteq> None"
      by (auto simp: carries_error_def split: option.splits)
    then have "findErrors_step (findErrors rs) r (length rs) = Some (ents @ [spread_index x (length rs)])"
      by (auto simp: findErrors_step_def IH ents_def split: option.splits)
    with True show ?thesis
      unfolding findErrors_snoc Let_def failing_indices_snoc
      by (simp add: old[unfolded r] r flip: idxs_def)
  qed
qed

lemma index_spread_index: "index (spread_index r i) = i"
  by (simp add: spread_index_def IThebeCellExecuteReturn.extend_def IThebeNotebookError.fields_def)

lemma truncate_spread_index: "IThebeCellExecuteReturn.truncate (spread_index r i) = r"
  by (simp add: spread_index_def IThebeCellExecuteReturn.extend_def IThebeNotebookError.fields_def
      IThebeCellExecuteReturn.truncate_def)

lemma error_spread_index:
  "IThebeCellExecuteReturn.error (spread_index r i) = IThebeCellExecuteReturn.error r"
  by (simp add: spread_index_def IThebeCellExecuteReturn.extend_def IThebeNotebookError.fields_def)

lemma findErrors_None_iff: "findErrors rs = None \<longleftrightarrow> (\<forall>r\<in>set rs. \<not> carries_error r)"
proof -
  have "filter (\<lambda>i. carries_error (rs ! i)) [0..<length rs] = [] \<longleftrightarrow> (\<forall>r\<in>set rs. \<not> carries_error r)"
    using nth_mem[of _ rs] by (auto simp: filter_empty_conv in_set_conv_nth)
  then show ?thesis by (simp add: findErrors_char Let_def)
qed

lemma findErrors_Some:
  assumes "findErrors rs = Some es"
  shows "es \<noteq> []"
    and "map index es = filter (\<lambda>i. carries_error (rs ! i)) [0..<length rs]"
    and "\<forall>e\<in>set es. index e < length rs \<and> rs ! index e = Some (IThebeCellExecuteReturn.truncate e)
            \<and> IThebeCellExecuteReturn.error e \<noteq> None"
proof -
  define idxs where "idxs = filter (\<lambda>i. carries_error (rs ! i)) [0..<length rs]"
  from assms have ne: "idxs \<noteq> []" and es: "es = map (\<lambda>i. spread_index (the (rs ! i)) i) idxs"
    by (auto simp: findErrors_char Let_def idxs_def split: if_splits)
  from ne es show "es \<noteq> []" by simp
  from es show "map index es = filter (\<lambda>i. carries_error (rs ! i)) [0..<length rs]"
    by (simp add: index_spread_index idxs_def o_def)
  show "\<forall>e\<in>set es. index e < length rs \<and> rs ! index e = Some (IThebeCellExecuteReturn.truncate e)
            \<and> IThebeCellExecuteReturn.error e \<noteq> None"
  proof
    fix e assume "e \<in> set es"
    then obtain i where i: "i < length rs" "carries_error (rs ! i)" and e: "e = spread_index (the (rs ! i)) i"
      by (auto simp: es idxs_def)
    from i(2) obtain x where "rs ! i = Some x" "IThebeCellExecuteReturn.error x \<noteq> None"
      by (auto simp: carries_error_def split: option.splits)
    with i(1) e show "index e < length rs \<and> rs ! index e = Some (IThebeCellExecuteReturn.truncate e)
            \<and> IThebeCellExecuteReturn.error e \<noteq> None"
      by (simp add: index_spread_index truncate_spread_index error_spread_index)
  qed
qed

text \<open>
  C2.  For every list of per-cell results, findErrors goes through the list in order
  with the position of each entry, and gives null when no entry carries an error and
  otherwise the list of exactly the entries that carry one, each with its position as
  index, in ascending order of position.  The value is never the empty list.
\<close>

theorem findErrors_collects_failures:
  "findErrors rs \<noteq> Some [] \<and>
   (findErrors rs = None \<longleftrightarrow> (\<forall>r\<in>set rs. \<not> carries_error r)) \<and>
   (\<forall>es. findErrors rs = Some es \<longrightarrow>
      es = map (\<lambda>i. spread_index (the (rs ! i)) i) (filter (\<lambda>i. carries_error (rs ! i)) [0..<length rs]) \<and>
      map index es = filter (\<lambda>i. carries_error (rs ! i)) [0..<length rs] \<and>
      sorted_wrt (<) (map index es) \<and>
      (\<forall>e\<in>set es. rs ! index e = Some (IThebeCellExecuteReturn.truncate e) \<and> carries_error (rs ! index e)))"
proof (intro conjI allI impI)
  show "findErrors rs \<noteq> Some []"
    using findErrors_Some(1)[of rs "[]"] by blast
  show "findErrors rs = None \<longleftrightarrow> (\<forall>r\<in>set rs. \<not> carries_error r)"
    by (rule findErrors_None_iff)
next
  fix es assume es: "findErrors rs = Some es"
  then show "es = map (\<lambda>i. spread_index (the (rs ! i)) i) (filter (\<lambda>i. carries_error (rs ! i)) [0..<length rs])"
    by (simp add: findErrors_char Let_def split: if_splits)
  show idx: "map index es = filter (\<lambda>i. carries_error (rs ! i)) [0..<length rs]"
    by (rule findErrors_Some(2)[OF es])
  have "sorted_wrt (<) (filter (\<lambda>i. carries_error (rs ! i)) [0..<length rs])"
    by (rule sorted_wrt_filter) (simp add: sorted_wrt_upt)
  with idx show "sorted_wrt (<) (map index es)" by simp
  show "\<forall>e\<in>set es. rs ! index e = Some (IThebeCellExecuteReturn.truncate e) \<and> carries_error (rs ! index e)"
    using findErrors_Some(3)[OF es]
    by (auto simp: carries_error_def IThebeCellExecuteReturn.truncate_def)
qed

theorem findErrors_collects_failures_witness:
  "findErrors [Some ok_a, Some failed_b, None, Some failed_c]
     = Some [spread_index failed_b 1, spread_index failed_c 3] \<and>
   map index (the (findErrors [Some ok_a, Some failed_b, None, Some failed_c])) = [1, 3] \<and>
   findErrors [Some ok_a, None] = None"
proof -
  let ?rs = "[Some ok_a, Some failed_b, None, Some failed_c]"
  let ?es = "[spread_index failed_b 1, spread_index failed_c 3]"
  have ev: "findErrors ?rs = Some ?es"
    by (simp add: findErrors_def reduce_def findErrors_step_def ok_a_def failed_b_def failed_c_def
        eval_nat_numeral)
  have quiet: "\<forall>r\<in>set [Some ok_a, None]. \<not> carries_error r"
    by (simp add: carries_error_def ok_a_def)
  from findErrors_collects_failures[of ?rs] ev
  have "map index ?es = filter (\<lambda>i. carries_error (?rs ! i)) [0..<length ?rs]"
    by blast
  also have "\<dots> = [1, 3]"
    by (simp add: carries_error_def ok_a_def failed_b_def failed_c_def upt_rec eval_nat_numeral)
  finally have idx: "map index (the (findErrors ?rs)) = [1, 3]"
    by (simp only: ev option.sel)
  from findErrors_collects_failures[of "[Some ok_a, None]"] quiet
  have "findErrors [Some ok_a, None] = None" by blast
  with ev idx show ?thesis by (simp only: simp_thms)
qed

section \<open>Properties of the notebook hook\<close>

lemma invoke_Inr:
  "invoke h a s = Inr s1 \<Longrightarrow>
     notebook s1 = notebook s \<and> executing s1 = executing s \<and> executed s1 = executed s \<and>
     errors s1 = errors s \<and> trace s1 = trace s @ (if h = None then [] else [a])"
  by (auto simp: invoke_def record_action_def split: option.splits hook.splits)

text \<open>What the \<^verbatim>\<open>.then\<close> callback leaves behind when it returns.\<close>

lemma on_execReturns_Resolved:
  assumes "on_execReturns options rs s = (s', Resolved rs')"
  shows "rs' = rs \<and> notebook s' = notebook s \<and> executed s' \<and> \<not> executing s' \<and>
         errors s' = (case findErrors rs of None \<Rightarrow> errors s | Some es \<Rightarrow> Some es) \<and>
         trace s' = trace s @ (if opt_after options = None then [] else [CallAfter])
            @ (case findErrors rs of None \<Rightarrow> [] | Some es \<Rightarrow> [SetErrors (Some es)])
            @ [SetExecuted True, SetExecuting False]"
proof (cases "invoke (opt_after options) CallAfter s")
  case (Inl e)
  with assms show ?thesis by (simp add: on_execReturns_def)
next
  case (Inr s1)
  note inv = invoke_Inr[OF Inr]
  from assms Inr show ?thesis
    using inv
    by (auto simp: on_execReturns_def Let_def setErrors_def setExecuted_def setExecuting_def
        record_action_def split: option.splits)
qed

lemma executeAll_Resolved:
  assumes "notebook s = Some nb" and "executeAll options s = Inr (s', Resolved rs)"
  shows "nb_executeAll nb (opt_stopOnError options) (opt_preprocessor options) = Resolved rs \<and>
         executed s' \<and> \<not> executing s' \<and>
         errors s' = (case findErrors rs of None \<Rightarrow> errors s | Some es \<Rightarrow> Some es) \<and>
         trace s' = trace s @ (if opt_before options = None then [] else [CallBefore])
            @ [SetExecuting True, CallExecuteAll (opt_stopOnError options) (opt_preprocessor options)]
            @ (if opt_after options = None then [] else [CallAfter])
            @ (case findErrors rs of None \<Rightarrow> [] | Some es \<Rightarrow> [SetErrors (Some es)])
            @ [SetExecuted True, SetExecuting False]"
proof (cases "invoke (opt_before options) CallBefore s")
  case (Inl e)
  with assms show ?thesis by (simp add: executeAll_def)
next
  case (Inr s1)
  note inv = invoke_Inr[OF Inr]
  define s3 where "s3 = record_action (CallExecuteAll (opt_stopOnError options) (opt_preprocessor options))
      (setExecuting True s1)"
  have s3: "errors s3 = errors s" "trace s3 = trace s @ (if opt_before options = None then [] else [CallBefore])
            @ [SetExecuting True, CallExecuteAll (opt_stopOnError options) (opt_preprocessor options)]"
    using inv by (simp_all add: s3_def record_action_def setExecuting_def)
  show ?thesis
  proof (cases "nb_executeAll nb (opt_stopOnError options) (opt_preprocessor options)")
    case (Rejected e)
    with assms Inr show ?thesis by (simp add: executeAll_def Let_def)
  next
    case (Resolved rs0)
    with assms Inr have "on_execReturns options rs0 s3 = (s', Resolved rs)"
      by (simp add: executeAll_def Let_def s3_def)
    from on_execReturns_Resolved[OF this] Resolved s3 show ?thesis by (simp split: option.splits)
  qed
qed

lemma executeSome_Resolved:
  assumes "notebook s = Some nb" and "executeSome predicate options s = Inr (s', Resolved rs)"
  shows "nb_executeCells nb (map cell_id (filter predicate (cells nb)))
           (opt_stopOnError options) (opt_preprocessor options) = Resolved rs \<and>
         executed s' \<and> \<not> executing s' \<and>
         errors s' = (case findErrors rs of None \<Rightarrow> errors s | Some es \<Rightarrow> Some es) \<and>
         trace s' = trace s @ (if opt_before options = None then [] else [CallBefore])
            @ [SetExecuting True,
               CallExecuteCells (map cell_id (filter predicate (cells nb)))
                 (opt_stopOnError options) (opt_preprocessor options)]
            @ (if opt_after options = None then [] else [CallAfter])
            @ (case findErrors rs of None \<Rightarrow> [] | Some es \<Rightarrow> [SetErrors (Some es)])
            @ [SetExecuted True, SetExecuting False]"
proof (cases "invoke (opt_before options) CallBefore s")
  case (Inl e)
  with assms show ?thesis by (simp add: executeSome_def)
next
  case (Inr s1)
  note inv = invoke_Inr[OF Inr]
  let ?ids = "map cell_id (filter predicate (cells nb))"
  define s3 where "s3 = record_action (CallExecuteCells ?ids (opt_stopOnError options) (opt_preprocessor options))
      (setExecuting True s1)"
  have s3: "errors s3 = errors s" "trace s3 = trace s @ (if opt_before options = None then [] else [CallBefore])
            @ [SetExecuting True, CallExecuteCells ?ids (opt_stopOnError options) (opt_preprocessor options)]"
    using inv by (simp_all add: s3_def record_action_def setExecuting_def)
  show ?thesis
  proof (cases "nb_executeCells nb ?ids (opt_stopOnError options) (opt_preprocessor options)")
    case (Rejected e)
    with assms Inr show ?thesis by (simp add: executeSome_def Let_def)
  next
    case (Resolved rs0)
    with assms Inr have "on_execReturns options rs0 s3 = (s', Resolved rs)"
      by (simp add: executeSome_def Let_def s3_def)
    from on_execReturns_Resolved[OF this] Resolved s3 show ?thesis by (simp split: option.splits)
  qed
qed

text \<open>A run that resolved had a notebook to run on.\<close>

lemma executeAll_Inr_notebook: "executeAll options s = Inr x \<Longrightarrow> notebook s \<noteq> None"
  by (auto simp: executeAll_def split: option.splits)

lemma executeSome_Inr_notebook: "executeSome predicate options s = Inr x \<Longrightarrow> notebook s \<noteq> None"
  by (auto simp: executeSome_def split: option.splits)

lemma run_errors:
  assumes "executeAll options s = Inr (s', Resolved rs) \<or>
           executeSome predicate options s = Inr (s', Resolved rs)"
  shows "errors s' = (case findErrors rs of None \<Rightarrow> errors s | Some es \<Rightarrow> Some es)"
  using assms
proof
  assume run: "executeAll options s = Inr (s', Resolved rs)"
  then obtain nb where "notebook s = Some nb" using executeAll_Inr_notebook by blast
  from executeAll_Resolved[OF this run] show ?thesis by simp
next
  assume run: "executeSome predicate options s = Inr (s', Resolved rs)"
  then obtain nb where "notebook s = Some nb" using executeSome_Inr_notebook by blast
  from executeSome_Resolved[OF this run] show ?thesis by simp
qed

text \<open>
  When the hooks return and the notebook's promise resolves, the run resolves.
\<close>

lemma executeAll_total:
  assumes "notebook s = Some nb"
    and "opt_before options \<in> {None, Some Returns}" and "opt_after options \<in> {None, Some Returns}"
    and "nb_executeAll nb (opt_stopOnError options) (opt_preprocessor options) = Resolved rs"
  shows "\<exists>s'. executeAll options s = Inr (s', Resolved rs)"
  using assms
  by (auto simp: executeAll_def on_execReturns_def invoke_def Let_def)


lemma executeAll_Rejected:
  assumes "notebook s = Some nb" and "executeAll options s = Inr (s', Rejected e)"
  shows "executing s' \<and> executed s' = executed s \<and> errors s' = errors s \<and>
         trace s' = trace s @ (if opt_before options = None then [] else [CallBefore])
            @ [SetExecuting True, CallExecuteAll (opt_stopOnError options) (opt_preprocessor options)]"
proof (cases "invoke (opt_before options) CallBefore s")
  case (Inl e')
  with assms show ?thesis by (simp add: executeAll_def)
next
  case (Inr s1)
  note inv = invoke_Inr[OF Inr]
  define s3 where "s3 = record_action (CallExecuteAll (opt_stopOnError options) (opt_preprocessor options))
      (setExecuting True s1)"
  have s3: "executing s3" "executed s3 = executed s" "errors s3 = errors s"
    "trace s3 = trace s @ (if opt_before options = None then [] else [CallBefore])
            @ [SetExecuting True, CallExecuteAll (opt_stopOnError options) (opt_preprocessor options)]"
    using inv by (simp_all add: s3_def record_action_def setExecuting_def)
  have "s' = s3"
  proof (cases "nb_executeAll nb (opt_stopOnError options) (opt_preprocessor options)")
    case (Rejected e')
    with assms Inr show ?thesis by (simp add: executeAll_def Let_def s3_def)
  next
    case (Resolved rs0)
    with assms Inr have "on_execReturns options rs0 s3 = (s', Rejected e)"
      by (simp add: executeAll_def Let_def s3_def)
    then show ?thesis
      by (auto simp: on_execReturns_def Let_def split: sum.splits)
  qed
  with s3 show ?thesis by simp
qed

lemma executeAll_before_throws:
  assumes "notebook s = Some nb" and "opt_before options = Some (Throws e)"
  shows "executeAll options s = Inl e"
  using assms by (simp add: executeAll_def invoke_def)

lemma executeAll_returns:
  assumes "notebook s = Some nb" and "opt_before options \<in> {None, Some Returns}"
  shows "\<exists>s' p. executeAll options s = Inr (s', p)"
  using assms
  by (auto simp: executeAll_def invoke_def Let_def split: promise.splits)

lemma executeAll_rejects:
  assumes "notebook s = Some nb" and "opt_before options \<in> {None, Some Returns}"
    and "nb_executeAll nb (opt_stopOnError options) (opt_preprocessor options) = Rejected e"
  shows "\<exists>s'. executeAll options s = Inr (s', Rejected e)"
  using assms
  by (auto simp: executeAll_def invoke_def Let_def)

text \<open>
  C1.  With a notebook set, executeAll sets \<open>executing\<close> to true before it calls the
  notebook's bulk execution method: unless the \<open>before\<close> hook throws, the call is made,
  the setter precedes it in the trace whatever becomes of the promise, and the flag is
  still true when the promise rejects.  When the promise resolves, the optional
  \<open>after\<close> hook has been invoked, \<open>executed\<close> is true, \<open>executing\<close> is false, and the
  value is the list of per-cell results, null entries included, that the notebook's
  method resolved with.
\<close>

theorem executeAll_runs_and_returns_results:
  assumes "notebook s = Some nb"
  shows "(\<forall>e. opt_before options = Some (Throws e) \<longrightarrow> executeAll options s = Inl e) \<and>
         (opt_before options \<in> {None, Some Returns} \<longrightarrow>
            (\<exists>s' p. executeAll options s = Inr (s', p)) \<and>
            (\<forall>e. nb_executeAll nb (opt_stopOnError options) (opt_preprocessor options) = Rejected e \<longrightarrow>
                 (\<exists>s'. executeAll options s = Inr (s', Rejected e))) \<and>
            (\<forall>rs. nb_executeAll nb (opt_stopOnError options) (opt_preprocessor options) = Resolved rs \<and>
                  opt_after options \<in> {None, Some Returns} \<longrightarrow>
                 (\<exists>s'. executeAll options s = Inr (s', Resolved rs)))) \<and>
         (\<forall>s' p. executeAll options s = Inr (s', p) \<longrightarrow>
            (\<exists>later. trace s' =
               trace s @ (if opt_before options = None then [] else [CallBefore])
                 @ [SetExecuting True,
                    CallExecuteAll (opt_stopOnError options) (opt_preprocessor options)]
                 @ later) \<and>
            (\<forall>e. p = Rejected e \<longrightarrow>
               executing s' \<and> executed s' = executed s \<and> errors s' = errors s \<and>
               trace s' =
                 trace s @ (if opt_before options = None then [] else [CallBefore])
                   @ [SetExecuting True,
                      CallExecuteAll (opt_stopOnError options) (opt_preprocessor options)]) \<and>
            (\<forall>rs. p = Resolved rs \<longrightarrow>
               nb_executeAll nb (opt_stopOnError options) (opt_preprocessor options) = Resolved rs \<and>
               executed s' \<and> \<not> executing s' \<and>
               trace s' =
                 trace s @ (if opt_before options = None then [] else [CallBefore])
                   @ [SetExecuting True,
                      CallExecuteAll (opt_stopOnError options) (opt_preprocessor options)]
                   @ (if opt_after options = None then [] else [CallAfter])
                   @ (case findErrors rs of None \<Rightarrow> [] | Some es \<Rightarrow> [SetErrors (Some es)])
                   @ [SetExecuted True, SetExecuting False]))"
proof -
  let ?call = "[SetExecuting True,
                CallExecuteAll (opt_stopOnError options) (opt_preprocessor options)]"
  let ?pre = "trace s @ (if opt_before options = None then [] else [CallBefore]) @ ?call"
  have throws: "executeAll options s = Inl e" if "opt_before options = Some (Throws e)" for e
    using assms that by (rule executeAll_before_throws)
  have returns: "\<exists>s' p. executeAll options s = Inr (s', p)"
    if "opt_before options \<in> {None, Some Returns}"
    using assms that by (rule executeAll_returns)
  have rejects: "\<exists>s'. executeAll options s = Inr (s', Rejected e)"
    if "opt_before options \<in> {None, Some Returns}"
      and "nb_executeAll nb (opt_stopOnError options) (opt_preprocessor options) = Rejected e" for e
    using assms that by (rule executeAll_rejects)
  have resolves: "\<exists>s'. executeAll options s = Inr (s', Resolved rs)"
    if "opt_before options \<in> {None, Some Returns}"
      and "nb_executeAll nb (opt_stopOnError options) (opt_preprocessor options) = Resolved rs \<and>
           opt_after options \<in> {None, Some Returns}" for rs
    using executeAll_total[OF assms that(1), of rs] that(2) by blast
  have rejected: "executing s' \<and> executed s' = executed s \<and> errors s' = errors s \<and>
                  trace s' = ?pre"
    if "executeAll options s = Inr (s', p)" and "p = Rejected e" for s' p e
    using executeAll_Rejected[OF assms, of options s' e] that by simp
  have resolved: "nb_executeAll nb (opt_stopOnError options) (opt_preprocessor options) = Resolved rs \<and>
                  executed s' \<and> \<not> executing s' \<and>
                  trace s' = ?pre
                    @ (if opt_after options = None then [] else [CallAfter])
                    @ (case findErrors rs of None \<Rightarrow> [] | Some es \<Rightarrow> [SetErrors (Some es)])
                    @ [SetExecuted True, SetExecuting False]"
    if "executeAll options s = Inr (s', p)" and "p = Resolved rs" for s' p rs
    using executeAll_Resolved[OF assms, of options s' rs] that by simp
  have before: "\<exists>later. trace s' = ?pre @ later" if run: "executeAll options s = Inr (s', p)" for s' p
  proof (cases p)
    case (Resolved rs)
    from resolved[OF run this] show ?thesis by simp
  next
    case (Rejected e)
    from rejected[OF run this] show ?thesis by simp
  qed
  from throws returns rejects resolves show ?thesis
    using before rejected resolved by (simp only: append_assoc) blast
qed

theorem executeAll_runs_and_returns_results_witness:
  "(case executeAll (Some hooked_options)
           (setNotebook (stub_notebook example_cells [Some ok_a, Some failed_b, None]) initial) of
      Inr (s', Resolved rs) \<Rightarrow>
        rs = [Some ok_a, Some failed_b, None] \<and> executed s' \<and> \<not> executing s' \<and>
        trace s' = [CallBefore, SetExecuting True, CallExecuteAll True None, CallAfter,
                    SetErrors (Some [spread_index failed_b 1]), SetExecuted True, SetExecuting False]
    | _ \<Rightarrow> False) \<and>
   (case executeAll (Some hooked_options) (setNotebook rejecting_notebook initial) of
      Inr (s', Rejected e) \<Rightarrow>
        e = Error ''kernel died'' \<and> executing s' \<and> \<not> executed s' \<and>
        trace s' = [CallBefore, SetExecuting True, CallExecuteAll True None]
    | _ \<Rightarrow> False)"
proof -
  let ?nb = "stub_notebook example_cells [Some ok_a, Some failed_b, None]"
  let ?s = "setNotebook ?nb initial"
  let ?rs = "[Some ok_a, Some failed_b, None]"
  let ?t = "setNotebook rejecting_notebook initial"
  have opts: "opt_before (Some hooked_options) = Some Returns" "opt_after (Some hooked_options) = Some Returns"
    "opt_stopOnError (Some hooked_options) = True" "opt_preprocessor (Some hooked_options) = None"
    by (simp_all add: hooked_options_def opt_before_def opt_after_def opt_stopOnError_def
        opt_preprocessor_def)
  have nb: "notebook ?s = Some ?nb" by (simp add: setNotebook_def)
  note T = executeAll_runs_and_returns_results[OF nb, of "Some hooked_options"]
  have res: "nb_executeAll ?nb True None = Resolved ?rs" by (simp add: stub_notebook_def)
  from T opts res obtain s' where run: "executeAll (Some hooked_options) ?s = Inr (s', Resolved ?rs)"
    by auto
  have fe: "findErrors ?rs = Some [spread_index failed_b 1]"
    by (simp add: findErrors_def reduce_def findErrors_step_def ok_a_def failed_b_def)
  have tr: "trace ?s = []" by (simp add: setNotebook_def initial_def)
  from T run
  have "executed s' \<and> \<not> executing s' \<and>
        trace s' = trace ?s @ (if opt_before (Some hooked_options) = None then [] else [CallBefore])
                   @ [SetExecuting True,
                      CallExecuteAll (opt_stopOnError (Some hooked_options)) (opt_preprocessor (Some hooked_options))]
                   @ (if opt_after (Some hooked_options) = None then [] else [CallAfter])
                   @ (case findErrors ?rs of None \<Rightarrow> [] | Some es \<Rightarrow> [SetErrors (Some es)])
                   @ [SetExecuted True, SetExecuting False]"
    by blast
  then have 1: "executed s' \<and> \<not> executing s' \<and>
        trace s' = [CallBefore, SetExecuting True, CallExecuteAll True None, CallAfter,
                    SetErrors (Some [spread_index failed_b 1]), SetExecuted True, SetExecuting False]"
    by (simp add: opts fe tr)
  have nbt: "notebook ?t = Some rejecting_notebook" by (simp add: setNotebook_def)
  note U = executeAll_runs_and_returns_results[OF nbt, of "Some hooked_options"]
  have rej: "nb_executeAll rejecting_notebook True None = Rejected (Error ''kernel died'')"
    by (simp add: rejecting_notebook_def)
  from U opts rej obtain t' where
    runt: "executeAll (Some hooked_options) ?t = Inr (t', Rejected (Error ''kernel died''))"
    by auto
  have trt: "trace ?t = []" "executed ?t = False" by (simp_all add: setNotebook_def initial_def)
  from U runt
  have "executing t' \<and> executed t' = executed ?t \<and>
        trace t' = trace ?t @ (if opt_before (Some hooked_options) = None then [] else [CallBefore])
                   @ [SetExecuting True,
                      CallExecuteAll (opt_stopOnError (Some hooked_options)) (opt_preprocessor (Some hooked_options))]"
    by blast
  then have 2: "executing t' \<and> \<not> executed t' \<and>
        trace t' = [CallBefore, SetExecuting True, CallExecuteAll True None]"
    by (simp add: opts trt)
  from run 1 runt 2 show ?thesis by simp
qed

text \<open>
  C5.  Without a notebook, executeAll, executeSome and clear each throw.
\<close>

theorem operations_throw_without_notebook:
  assumes "notebook s = None"
  shows "executeAll options s = Inl (Error ''executeAll called before notebook available'') \<and>
         executeSome predicate options s = Inl (Error ''executeSome called before notebook available'') \<and>
         clear s = Inl (Error ''clear called before notebook available'')"
  using assms by (simp add: executeAll_def executeSome_def clear_def)

theorem operations_throw_without_notebook_witness:
  "notebook (initial :: (string, string) NotebookBase) = None \<and>
   executeAll None (initial :: (string, string) NotebookBase)
     = Inl (Error ''executeAll called before notebook available'') \<and>
   executeSome in_a_c None (initial :: (string, string) NotebookBase)
     = Inl (Error ''executeSome called before notebook available'') \<and>
   clear (initial :: (string, string) NotebookBase)
     = Inl (Error ''clear called before notebook available'')"
proof -
  have none: "notebook (initial :: (string, string) NotebookBase) = None"
    by (simp add: initial_def)
  from operations_throw_without_notebook[OF none, of None in_a_c] none show ?thesis by simp
qed

text \<open>
  C8.  With a notebook set, clear asks the notebook to clear itself and sets
  \<open>executed\<close> to false; \<open>errors\<close> and \<open>executing\<close> stay as they were.
\<close>

theorem clear_resets_executed_only:
  assumes "notebook s = Some nb"
  shows "\<exists>s'. clear s = Inr s' \<and> executed s' = False \<and> errors s' = errors s \<and>
           executing s' = executing s \<and> notebook s' = notebook s \<and>
           trace s' = trace s @ [CallClear, SetExecuted False]"
  using assms by (simp add: clear_def setExecuted_def record_action_def)

theorem clear_resets_executed_only_witness:
  "(case clear failed_run_state of
      Inr s' \<Rightarrow> executed s' = False \<and> errors s' = Some [spread_index failed_b 1] \<and>
                executing s' = False \<and> trace s' = [CallClear, SetExecuted False]
    | Inl e \<Rightarrow> False)"
proof -
  have nb: "notebook failed_run_state = Some (stub_notebook example_cells [Some ok_a, Some failed_b, None])"
    by (simp add: failed_run_state_def)
  from clear_resets_executed_only[OF nb]
  obtain s' where "clear failed_run_state = Inr s'" "executed s' = False"
    "errors s' = errors failed_run_state" "executing s' = executing failed_run_state"
    "trace s' = trace failed_run_state @ [CallClear, SetExecuted False]"
    by blast
  then show ?thesis by (simp add: failed_run_state_def)
qed

text \<open>
  C3, as stated, fails: a run in which every result succeeds does not touch \<open>errors\<close>
  (the setter is called only for a non-null findErrors value), so the errors of an
  earlier run stay.  Below, a first run records the failure of cell b; a second run
  on a notebook that now succeeds leaves that record in place.
\<close>

theorem errors_stale_after_successful_run:
  "(case executeAll None (setNotebook (stub_notebook example_cells [Some ok_a, Some failed_b, None]) initial) of
      Inr (s1, Resolved rs1) \<Rightarrow>
        (case executeAll None (setNotebook (stub_notebook example_cells [Some ok_a]) s1) of
           Inr (s2, Resolved rs2) \<Rightarrow>
             filter carries_error rs2 = [] \<and> errors s2 = Some [spread_index failed_b 1]
         | _ \<Rightarrow> False)
    | _ \<Rightarrow> False)"
  by (simp add: executeAll_def on_execReturns_def invoke_def opt_before_def opt_after_def
      opt_stopOnError_def opt_preprocessor_def setNotebook_def stub_notebook_def initial_def
      setExecuting_def setExecuted_def setErrors_def record_action_def Let_def
      findErrors_def reduce_def findErrors_step_def carries_error_def ok_a_def failed_b_def)

text \<open>
  C3, amended.  After an executeAll or executeSome run that resolves with results none
  of which carries an error, \<open>errors\<close> is what it was before the run: unset when it was
  unset, and otherwise still the errors an earlier run recorded.
\<close>

theorem successful_run_keeps_errors:
  assumes "executeAll options s = Inr (s', Resolved rs) \<or>
           executeSome predicate options s = Inr (s', Resolved rs)"
    and "\<forall>r\<in>set rs. \<not> carries_error r"
  shows "errors s' = errors s"
proof -
  from assms(2) have "findErrors rs = None" by (simp add: findErrors_None_iff)
  with run_errors[OF assms(1)] show ?thesis by simp
qed

theorem successful_run_keeps_errors_witness:
  "(case executeAll None (setNotebook (stub_notebook example_cells [Some ok_a, None]) initial) of
      Inr (s', Resolved rs) \<Rightarrow> rs = [Some ok_a, None] \<and> errors s' = None
    | _ \<Rightarrow> False)"
proof -
  let ?nb = "stub_notebook example_cells [Some ok_a, None]"
  let ?s = "setNotebook ?nb initial"
  have nb: "notebook ?s = Some ?nb" by (simp add: setNotebook_def)
  have "nb_executeAll ?nb (opt_stopOnError None) (opt_preprocessor None) = Resolved [Some ok_a, None]"
    by (simp add: stub_notebook_def)
  with executeAll_total[OF nb, of None "[Some ok_a, None]"]
  obtain s' where run: "executeAll None ?s = Inr (s', Resolved [Some ok_a, None])"
    by (auto simp: opt_before_def opt_after_def)
  have quiet: "\<forall>r\<in>set [Some ok_a, None]. \<not> carries_error r"
    by (simp add: carries_error_def ok_a_def)
  from successful_run_keeps_errors[OF disjI1, OF run quiet]
  have "errors s' = None" by (simp add: setNotebook_def initial_def)
  with run show ?thesis by simp
qed

text \<open>
  C4, as stated, fails for executeSome: the index of an entry is its position in the
  list of results the notebook's method returned, and executeCells returns results for
  the selected cells only.  In the notebook with cells a, b, c where c fails,
  running a and c records the failure of c with index 1; c is the cell at position 2.
\<close>

theorem executeSome_index_is_not_notebook_position:
  "(case executeSome in_a_c None (setNotebook example_notebook initial) of
      Inr (s', Resolved rs) \<Rightarrow>
        rs = [Some \<lparr>rest = ''a'', IThebeCellExecuteReturn.error = None\<rparr>, Some failed_c] \<and>
        errors s' = Some [spread_index failed_c 1] \<and>
        map cell_id (cells example_notebook) = [''a'', ''b'', ''c'']
    | _ \<Rightarrow> False)"
  by (simp add: executeSome_def on_execReturns_def invoke_def opt_before_def opt_after_def
      opt_stopOnError_def opt_preprocessor_def setNotebook_def example_notebook_def spec_notebook_def
      initial_def setExecuting_def setExecuted_def setErrors_def record_action_def Let_def
      findErrors_def reduce_def findErrors_step_def example_cells_def example_kernel_def
      execute_cell_def in_a_c_def failed_c_def)

text \<open>
  The results of the notebook modelled from the spec: one entry per cell run, each
  null or the result of the cell at that position.
\<close>

lemma execute_cells_length: "length (execute_cells kern stop pre cs) = length cs"
  by (induction cs) (simp_all add: Let_def)

lemma execute_cells_nth:
  "i < length cs \<Longrightarrow>
     execute_cells kern stop pre cs ! i = None \<or>
     execute_cells kern stop pre cs ! i = Some (execute_cell kern pre (cs ! i))"
proof (induction cs arbitrary: i)
  case Nil
  then show ?case by simp
next
  case (Cons c cs)
  show ?case
  proof (cases i)
    case 0
    then show ?thesis by (simp add: Let_def)
  next
    case (Suc j)
    with Cons.prems have "j < length cs" by simp
    from Cons.IH[OF this] this Suc show ?thesis by (auto simp: Let_def)
  qed
qed

lemma recorded_in_execute_cells:
  assumes "findErrors (execute_cells kern stop pre cs) = Some es" and "e \<in> set es"
  shows "index e < length cs \<and>
         IThebeCellExecuteReturn.truncate e = execute_cell kern pre (cs ! index e) \<and>
         rest e = cell_id (cs ! index e)"
proof -
  from findErrors_Some(3)[OF assms(1)] assms(2)
  have i: "index e < length (execute_cells kern stop pre cs)"
    and r: "execute_cells kern stop pre cs ! index e = Some (IThebeCellExecuteReturn.truncate e)"
    by blast+
  from i have lt: "index e < length cs" by (simp add: execute_cells_length)
  from execute_cells_nth[OF lt, of kern stop pre] r
  have t: "IThebeCellExecuteReturn.truncate e = execute_cell kern pre (cs ! index e)" by simp
  have "rest e = rest (IThebeCellExecuteReturn.truncate e)"
    by (simp add: IThebeCellExecuteReturn.truncate_def)
  also have "\<dots> = cell_id (cs ! index e)" by (simp add: t execute_cell_def)
  finally show ?thesis using lt t by simp
qed

text \<open>With distinct cell ids, the cells executeCells runs are the cells the predicate selects.\<close>

lemma selected_cells_distinct:
  assumes "distinct (map cell_id cs)"
  shows "filter (\<lambda>c. cell_id c \<in> set (map cell_id (filter predicate cs))) cs = filter predicate cs"
proof (rule filter_cong[OF refl])
  fix c assume c: "c \<in> set cs"
  from assms have inj: "inj_on cell_id (set cs)" by (simp add: distinct_map)
  show "(cell_id c \<in> set (map cell_id (filter predicate cs))) = predicate c"
  proof
    assume "cell_id c \<in> set (map cell_id (filter predicate cs))"
    then obtain x where "x \<in> set cs" "predicate x" "cell_id x = cell_id c" by auto
    with inj c have "x = c" by (auto dest: inj_onD)
    with \<open>predicate x\<close> show "predicate c" by simp
  next
    assume "predicate c"
    with c show "cell_id c \<in> set (map cell_id (filter predicate cs))" by auto
  qed
qed

lemma rest_spread_index: "rest (spread_index r i) = rest r"
  by (simp add: spread_index_def IThebeCellExecuteReturn.extend_def IThebeNotebookError.fields_def)

text \<open>
  C4, amended.  The entries a run records in \<open>errors\<close> are the value of findErrors on
  the results the run resolved with, and the index of each is the position of its
  result in that list.  For an executeAll run this is the position of the cell in the
  notebook at the time of the run.  For an executeSome run it is the position of the
  cell among the cells selected for the run, in notebook order; with distinct cell
  ids these are the cells that satisfy the predicate.
\<close>

theorem recorded_index_is_position_among_run_cells:
  "(executeAll options s = Inr (s', Resolved rs) \<or>
    executeSome predicate options s = Inr (s', Resolved rs) \<longrightarrow>
      errors s' = (case findErrors rs of None \<Rightarrow> errors s | Some es \<Rightarrow> Some es) \<and>
      (\<forall>es. findErrors rs = Some es \<longrightarrow>
         (\<forall>e\<in>set es. index e < length rs \<and>
                      rs ! index e = Some (IThebeCellExecuteReturn.truncate e)))) \<and>
   (notebook s = Some (spec_notebook kern cs) \<and>
    executeAll options s = Inr (s', Resolved rs) \<longrightarrow>
      (\<forall>es. findErrors rs = Some es \<longrightarrow>
         errors s' = Some es \<and>
         (\<forall>e\<in>set es. index e < length cs \<and>
            IThebeCellExecuteReturn.truncate e
              = execute_cell kern (opt_preprocessor options) (cs ! index e) \<and>
            rest e = cell_id (cs ! index e)))) \<and>
   (notebook s = Some (spec_notebook kern cs) \<and>
    executeSome predicate options s = Inr (s', Resolved rs) \<longrightarrow>
      (\<forall>es. findErrors rs = Some es \<longrightarrow>
         errors s' = Some es \<and>
         (\<forall>e\<in>set es.
            index e < length (filter (\<lambda>c. cell_id c \<in> set (map cell_id (filter predicate cs))) cs) \<and>
            IThebeCellExecuteReturn.truncate e
              = execute_cell kern (opt_preprocessor options)
                  (filter (\<lambda>c. cell_id c \<in> set (map cell_id (filter predicate cs))) cs ! index e) \<and>
            rest e
              = cell_id (filter (\<lambda>c. cell_id c \<in> set (map cell_id (filter predicate cs))) cs ! index e)))) \<and>
   (distinct (map cell_id cs) \<longrightarrow>
      filter (\<lambda>c. cell_id c \<in> set (map cell_id (filter predicate cs))) cs = filter predicate cs)"
proof -
  let ?sel = "filter (\<lambda>c. cell_id c \<in> set (map cell_id (filter predicate cs))) cs"
  have any: "errors s' = (case findErrors rs of None \<Rightarrow> errors s | Some es \<Rightarrow> Some es) \<and>
      (\<forall>es. findErrors rs = Some es \<longrightarrow>
         (\<forall>e\<in>set es. index e < length rs \<and>
                      rs ! index e = Some (IThebeCellExecuteReturn.truncate e)))"
    if run: "executeAll options s = Inr (s', Resolved rs) \<or>
             executeSome predicate options s = Inr (s', Resolved rs)"
    using run_errors[OF run] findErrors_Some(3)[of rs] by blast
  have all_cells: "errors s' = Some es \<and>
         (\<forall>e\<in>set es. index e < length cs \<and>
            IThebeCellExecuteReturn.truncate e
              = execute_cell kern (opt_preprocessor options) (cs ! index e) \<and>
            rest e = cell_id (cs ! index e))"
    if nb: "notebook s = Some (spec_notebook kern cs)"
      and run: "executeAll options s = Inr (s', Resolved rs)"
      and es: "findErrors rs = Some es" for es
  proof -
    from executeAll_Resolved[OF nb run]
    have rs: "rs = execute_cells kern (opt_stopOnError options) (opt_preprocessor options) cs"
      and "errors s' = (case findErrors rs of None \<Rightarrow> errors s | Some es \<Rightarrow> Some es)"
      by (simp_all add: spec_notebook_def)
    with es have "errors s' = Some es" by simp
    moreover from es rs
    have "findErrors (execute_cells kern (opt_stopOnError options) (opt_preprocessor options) cs) = Some es"
      by simp
    note recorded_in_execute_cells[OF this]
    ultimately show ?thesis by blast
  qed
  have some_cells: "errors s' = Some es \<and>
         (\<forall>e\<in>set es. index e < length ?sel \<and>
            IThebeCellExecuteReturn.truncate e
              = execute_cell kern (opt_preprocessor options) (?sel ! index e) \<and>
            rest e = cell_id (?sel ! index e))"
    if nb: "notebook s = Some (spec_notebook kern cs)"
      and run: "executeSome predicate options s = Inr (s', Resolved rs)"
      and es: "findErrors rs = Some es" for es
  proof -
    from executeSome_Resolved[OF nb run]
    have rs: "rs = execute_cells kern (opt_stopOnError options) (opt_preprocessor options) ?sel"
      and "errors s' = (case findErrors rs of None \<Rightarrow> errors s | Some es \<Rightarrow> Some es)"
      by (simp_all add: spec_notebook_def)
    with es have "errors s' = Some es" by simp
    moreover from es rs
    have "findErrors (execute_cells kern (opt_stopOnError options) (opt_preprocessor options) ?sel) = Some es"
      by simp
    note recorded_in_execute_cells[OF this]
    ultimately show ?thesis by blast
  qed
  have sel: "?sel = filter predicate cs" if "distinct (map cell_id cs)"
    using that by (rule selected_cells_distinct)
  from any all_cells some_cells sel show ?thesis by blast
qed

theorem recorded_index_is_position_among_run_cells_witness:
  "(case executeAll None (setNotebook example_notebook initial) of
      Inr (s', Resolved rs) \<Rightarrow>
        errors s' = Some [spread_index failed_c 2] \<and> cell_id (example_cells ! 2) = ''c''
    | _ \<Rightarrow> False) \<and>
   (case executeSome in_a_c None (setNotebook example_notebook initial) of
      Inr (s', Resolved rs) \<Rightarrow>
        errors s' = Some [spread_index failed_c 1] \<and> cell_id (filter in_a_c example_cells ! 1) = ''c''
    | _ \<Rightarrow> False)"
proof -
  let ?s = "setNotebook example_notebook initial"
  let ?ok = "\<lambda>i. Some \<lparr>rest = i, IThebeCellExecuteReturn.error = (None :: string option)\<rparr>"
  let ?all = "[?ok ''a'', ?ok ''b'', Some failed_c]"
  let ?some = "[?ok ''a'', Some failed_c]"
  have nb: "notebook ?s = Some (spec_notebook example_kernel example_cells)"
    by (simp add: setNotebook_def example_notebook_def)
  have ids: "distinct (map cell_id example_cells)" by (simp add: example_cells_def)
  note T = recorded_index_is_position_among_run_cells[of None ?s _ _ in_a_c example_kernel example_cells]
  have "nb_executeAll example_notebook (opt_stopOnError None) (opt_preprocessor None) = Resolved ?all"
    by (simp add: example_notebook_def spec_notebook_def example_cells_def example_kernel_def
        execute_cell_def failed_c_def opt_stopOnError_def opt_preprocessor_def Let_def)
  with executeAll_total[of ?s example_notebook None ?all]
  obtain s1 where run1: "executeAll None ?s = Inr (s1, Resolved ?all)"
    by (auto simp: opt_before_def opt_after_def setNotebook_def)
  have fe1: "findErrors ?all = Some [spread_index failed_c 2]"
    by (simp add: findErrors_def reduce_def findErrors_step_def failed_c_def eval_nat_numeral)
  from T[of s1 ?all] nb run1 fe1
  have "errors s1 = Some [spread_index failed_c 2] \<and>
        rest (spread_index failed_c 2) = cell_id (example_cells ! index (spread_index failed_c 2))"
    by simp
  then have 1: "errors s1 = Some [spread_index failed_c 2] \<and> cell_id (example_cells ! 2) = ''c''"
    by (simp add: rest_spread_index index_spread_index failed_c_def)
  obtain s2 where run2: "executeSome in_a_c None ?s = Inr (s2, Resolved ?some)"
    by (simp add: executeSome_def on_execReturns_def invoke_def opt_before_def opt_after_def
      opt_stopOnError_def opt_preprocessor_def setNotebook_def example_notebook_def spec_notebook_def
      initial_def Let_def example_cells_def example_kernel_def execute_cell_def in_a_c_def
      failed_c_def)
  have fe2: "findErrors ?some = Some [spread_index failed_c 1]"
    by (simp add: findErrors_def reduce_def findErrors_step_def failed_c_def)
  from T[of s2 ?some] ids
  have sel: "filter (\<lambda>c. cell_id c \<in> set (map cell_id (filter in_a_c example_cells))) example_cells
               = filter in_a_c example_cells"
    by blast
  from T[of s2 ?some] nb run2 fe2
  have "errors s2 = Some [spread_index failed_c 1] \<and>
        rest (spread_index failed_c 1)
          = cell_id (filter (\<lambda>c. cell_id c \<in> set (map cell_id (filter in_a_c example_cells))) example_cells
                       ! index (spread_index failed_c 1))"
    by simp
  then have 2: "errors s2 = Some [spread_index failed_c 1] \<and>
                cell_id (filter in_a_c example_cells ! 1) = ''c''"
    by (simp only: sel rest_spread_index index_spread_index) (simp add: failed_c_def)
  from run1 1 run2 2 show ?thesis by simp
qed


section \<open>Properties of the session provider\<close>



lemma startSession_requests:
  assumes "server ctx = Some srv"
  shows "\<exists>later. requests (startSession ctx nm s) =
           requests s @ StartNewSession (session_options ctx nm) # later"
  using assms
  by (auto simp: startSession_def on_session_def on_kernelSpecs_def request_def Let_def
      split: promise.splits option.splits)

lemma start_not_ready:
  "\<not> (session s \<noteq> None \<and> ready s) \<Longrightarrow> start ctx nm s = (startSession ctx nm s, Resolved ())"
  by (auto simp: start_def split: option.splits)

text \<open>
  C6, as stated, fails where the provider has no server object: the request is made
  through \<^verbatim>\<open>server?.startNewSession\<close>, so without a server start() makes no request
  and only raises the \<open>starting\<close> flag.
\<close>

theorem start_without_server_requests_nothing:
  "requests (fst (start no_server_context ''default'' idle_provider)) = [] \<and>
   starting (fst (start no_server_context ''default'' idle_provider)) = True \<and>
   session (fst (start no_server_context ''default'' idle_provider)) = None"
  by (simp add: start_def startSession_def no_server_context_def idle_provider_def)

text \<open>
  C6, amended.  When a session exists and is ready, start() restarts that session: the
  stored session is unchanged and the only request made is the restart.  Otherwise,
  when the provider has a server object, start() requests a new session from it,
  passing the name as both \<open>name\<close> and \<open>path\<close>; when it has none, start() makes no
  request and only sets \<open>starting\<close>.
\<close>

theorem start_restarts_or_requests_session:
  "(session s = Some sess \<and> ready s \<longrightarrow>
      start ctx nm s = (request (SessionRestart (session_id sess)) s, session_restart sess) \<and>
      session (fst (start ctx nm s)) = Some sess \<and>
      requests (fst (start ctx nm s)) = requests s @ [SessionRestart (session_id sess)]) \<and>
   (\<not> (session s \<noteq> None \<and> ready s) \<and> server ctx = Some srv \<longrightarrow>
      (\<exists>later. requests (fst (start ctx nm s)) =
         requests s @
         StartNewSession \<lparr>kernels = (case config ctx of None \<Rightarrow> None | Some c \<Rightarrow> Some (config_kernels c)),
                          name = nm, path = nm\<rparr> # later)) \<and>
   (\<not> (session s \<noteq> None \<and> ready s) \<and> server ctx = None \<longrightarrow>
      start ctx nm s = (s\<lparr>starting := True\<rparr>, Resolved ()))"
proof (intro conjI impI)
  assume "session s = Some sess \<and> ready s"
  then show "start ctx nm s = (request (SessionRestart (session_id sess)) s, session_restart sess)"
    and "session (fst (start ctx nm s)) = Some sess"
    and "requests (fst (start ctx nm s)) = requests s @ [SessionRestart (session_id sess)]"
    by (simp_all add: start_def request_def)
next
  assume a: "\<not> (session s \<noteq> None \<and> ready s) \<and> server ctx = Some srv"
  then have "start ctx nm s = (startSession ctx nm s, Resolved ())" by (simp add: start_not_ready)
  with startSession_requests[of ctx srv nm s] a
  show "\<exists>later. requests (fst (start ctx nm s)) =
         requests s @
         StartNewSession \<lparr>kernels = (case config ctx of None \<Rightarrow> None | Some c \<Rightarrow> Some (config_kernels c)),
                          name = nm, path = nm\<rparr> # later"
    by (simp add: session_options_def)
next
  assume a: "\<not> (session s \<noteq> None \<and> ready s) \<and> server ctx = None"
  then have "start ctx nm s = (startSession ctx nm s, Resolved ())" by (simp add: start_not_ready)
  with a show "start ctx nm s = (s\<lparr>starting := True\<rparr>, Resolved ())"
    by (simp add: startSession_def)
qed

theorem start_restarts_or_requests_session_witness:
  "start example_context ''default'' ready_provider
     = (ready_provider\<lparr>requests := [SessionRestart ''s1'']\<rparr>, Resolved ()) \<and>
   requests (fst (start example_context ''default'' idle_provider))
     = [StartNewSession \<lparr>kernels = Some ''python3'', name = ''default'', path = ''default''\<rparr>] \<and>
   session (fst (start example_context ''default'' idle_provider)) = Some example_session \<and>
   start no_server_context ''default'' idle_provider = (idle_provider\<lparr>starting := True\<rparr>, Resolved ())"
proof -
  note T = start_restarts_or_requests_session
  have r: "session ready_provider = Some example_session \<and> ready ready_provider"
    by (simp add: ready_provider_def)
  from T[of ready_provider example_session example_context "''default''"] r
  have "start example_context ''default'' ready_provider
          = (request (SessionRestart (session_id example_session)) ready_provider,
             session_restart example_session)"
    by blast
  then have 1: "start example_context ''default'' ready_provider
     = (ready_provider\<lparr>requests := [SessionRestart ''s1'']\<rparr>, Resolved ())"
    by (simp add: request_def example_session_def ready_provider_def)
  have i: "\<not> (session idle_provider \<noteq> None \<and> ready idle_provider)"
    by (simp add: idle_provider_def)
  have "server example_context = Some example_server" by (simp add: example_context_def)
  with T[of idle_provider _ example_context "''default''" example_server] i
  obtain later where "requests (fst (start example_context ''default'' idle_provider)) =
         requests idle_provider @
         StartNewSession \<lparr>kernels = (case config example_context of None \<Rightarrow> None
                                       | Some c \<Rightarrow> Some (config_kernels c)),
                          name = ''default'', path = ''default''\<rparr> # later"
    by blast
  have 2: "requests (fst (start example_context ''default'' idle_provider))
     = [StartNewSession \<lparr>kernels = Some ''python3'', name = ''default'', path = ''default''\<rparr>]"
    "session (fst (start example_context ''default'' idle_provider)) = Some example_session"
    by (simp_all add: start_def startSession_def on_session_def request_def session_options_def
        example_context_def example_server_def idle_provider_def Let_def)
  have "server no_server_context = None" by (simp add: no_server_context_def)
  with T[of idle_provider _ no_server_context "''default''"] i
  have 3: "start no_server_context ''default'' idle_provider = (idle_provider\<lparr>starting := True\<rparr>, Resolved ())"
    by blast
  from 1 2 3 show ?thesis by simp
qed



section \<open>Properties of the cell user interface\<close>

lemma render_cell_unmatched:
  "getCellById nb (item_id item) = None \<Longrightarrow> render_cell options nb item w = (item, w)"
  by (simp add: render_cell_def)

lemma renderAllCells_Cons:
  "renderAllCells options nb (item # items) w =
     (fst (render_cell options nb item w)
        # fst (renderAllCells options nb items (snd (render_cell options nb item w))),
      snd (renderAllCells options nb items (snd (render_cell options nb item w))))"
  by (simp add: Let_def case_prod_beta)

lemma renderAllCells_length:
  "length (fst (renderAllCells options nb items w)) = length items"
  by (induction items arbitrary: w) (simp_all add: renderAllCells_Cons del: renderAllCells.simps(2))

text \<open>Each item is rendered on the page as the items before it left it.\<close>

lemma renderAllCells_nth:
  "i < length items \<Longrightarrow>
     fst (renderAllCells options nb items w) ! i =
       fst (render_cell options nb (items ! i) (snd (renderAllCells options nb (take i items) w)))"
proof (induction items arbitrary: w i)
  case Nil
  then show ?case by simp
next
  case (Cons item items)
  show ?case
  proof (cases i)
    case 0
    then show ?thesis by (simp add: renderAllCells_Cons del: renderAllCells.simps(2))
  next
    case (Suc j)
    with Cons.prems have "j < length items" by simp
    from Cons.IH[OF this] Suc show ?thesis
      by (simp add: renderAllCells_Cons del: renderAllCells.simps(2))
  qed
qed

text \<open>The items without a cell leave no mark on the page.\<close>

lemma renderAllCells_world_filter:
  "snd (renderAllCells options nb items w) =
     snd (renderAllCells options nb (filter (\<lambda>item. getCellById nb (item_id item) \<noteq> None) items) w)"
proof (induction items arbitrary: w)
  case Nil
  show ?case by simp
next
  case (Cons item items)
  show ?case
  proof (cases "getCellById nb (item_id item)")
    case None
    then show ?thesis using Cons.IH[of w]
      by (simp add: render_cell_unmatched renderAllCells_Cons del: renderAllCells.simps(2))
  next
    case (Some cell)
    then show ?thesis using Cons.IH
      by (simp add: renderAllCells_Cons del: renderAllCells.simps(2))
  qed
qed

lemma renderAllCells_all_unmatched:
  "\<forall>item\<in>set items. getCellById nb (item_id item) = None \<Longrightarrow>
     renderAllCells options nb items w = (items, w)"
  by (induction items arbitrary: w)
     (simp_all add: renderAllCells_Cons render_cell_unmatched del: renderAllCells.simps(2))

lemma buildCellUI_ui: "\<exists>u. ui (fst (buildCellUI options item nb cell w)) = Some u"
  by (simp add: buildCellUI_def Let_def case_prod_beta)

lemma buildCellUI_attaches:
  "\<exists>out. effects (snd (buildCellUI options item nb cell w)) \<noteq> [] \<and>
         last (effects (snd (buildCellUI options item nb cell w))) = AttachToDOM (cell_id cell) out"
  by (simp add: buildCellUI_def Let_def case_prod_beta)

text \<open>
  C10.  renderAllCells returns one item per item given.  An item whose id has no cell
  in the notebook is returned as it is, and the page and the collaborator calls are
  what they would be had the item not been in the list: no user interface is built for
  it and no cell is attached.  An item whose id has a cell is replaced by the item
  buildCellUI returns for it, which has its user interface set.
\<close>

theorem renderAllCells_skips_items_without_cell:
  "length (fst (renderAllCells options nb items w)) = length items \<and>
   (\<forall>i<length items.
      fst (renderAllCells options nb items w) ! i =
        (case getCellById nb (item_id (items ! i)) of
           None \<Rightarrow> items ! i
         | Some cell \<Rightarrow>
             fst (buildCellUI options (items ! i) nb cell
                    (snd (renderAllCells options nb (take i items) w)))) \<and>
      (getCellById nb (item_id (items ! i)) \<noteq> None \<longrightarrow>
         ui (fst (renderAllCells options nb items w) ! i) \<noteq> None)) \<and>
   snd (renderAllCells options nb items w) =
     snd (renderAllCells options nb
            (filter (\<lambda>item. getCellById nb (item_id item) \<noteq> None) items) w) \<and>
   ((\<forall>item\<in>set items. getCellById nb (item_id item) = None) \<longrightarrow>
      renderAllCells options nb items w = (items, w))"
proof (intro conjI allI impI)
  show "length (fst (renderAllCells options nb items w)) = length items"
    by (rule renderAllCells_length)
  show "snd (renderAllCells options nb items w) =
     snd (renderAllCells options nb
            (filter (\<lambda>item. getCellById nb (item_id item) \<noteq> None) items) w)"
    by (rule renderAllCells_world_filter)
  show "renderAllCells options nb items w = (items, w)"
    if "\<forall>item\<in>set items. getCellById nb (item_id item) = None"
    using that by (rule renderAllCells_all_unmatched)
next
  fix i assume i: "i < length items"
  show eq: "fst (renderAllCells options nb items w) ! i =
        (case getCellById nb (item_id (items ! i)) of
           None \<Rightarrow> items ! i
         | Some cell \<Rightarrow>
             fst (buildCellUI options (items ! i) nb cell
                    (snd (renderAllCells options nb (take i items) w))))"
    by (simp add: renderAllCells_nth[OF i] render_cell_def split: option.splits)
  show "ui (fst (renderAllCells options nb items w) ! i) \<noteq> None"
    if "getCellById nb (item_id (items ! i)) \<noteq> None"
    using that by (auto simp: eq buildCellUI_ui)
qed

theorem renderAllCells_skips_items_without_cell_witness:
  "fst (renderAllCells example_options (stub_notebook example_cells ([] :: (string, string) IThebeCellExecuteReturn option list))
          [stray_item, example_item] example_page) ! 0 = stray_item \<and>
   ui (fst (renderAllCells example_options (stub_notebook example_cells ([] :: (string, string) IThebeCellExecuteReturn option list))
          [stray_item, example_item] example_page) ! 1) \<noteq> None \<and>
   snd (renderAllCells example_options (stub_notebook example_cells ([] :: (string, string) IThebeCellExecuteReturn option list))
          [stray_item, example_item] example_page) = rendered_page \<and>
   renderAllCells example_options (stub_notebook example_cells ([] :: (string, string) IThebeCellExecuteReturn option list))
          [stray_item] example_page = ([stray_item], example_page)"
proof -
  let ?nb = "stub_notebook example_cells ([] :: (string, string) IThebeCellExecuteReturn option list)"
  note T = renderAllCells_skips_items_without_cell[of example_options ?nb _ example_page]
  have stray: "getCellById ?nb (item_id stray_item) = None"
    by (simp add: stub_notebook_def stray_item_def example_cells_def)
  have found: "getCellById ?nb (item_id example_item) \<noteq> None"
    by (simp add: stub_notebook_def example_item_def example_cells_def)
  from T[of "[stray_item, example_item]"] stray
  have 0: "fst (renderAllCells example_options ?nb [stray_item, example_item] example_page) ! 0 = stray_item"
    by auto
  from T[of "[stray_item, example_item]"] found
  have 1: "ui (fst (renderAllCells example_options ?nb [stray_item, example_item] example_page) ! 1) \<noteq> None"
    by auto
  from T[of "[stray_item, example_item]"] stray found
  have 2: "snd (renderAllCells example_options ?nb [stray_item, example_item] example_page) = rendered_page"
    by (simp add: rendered_page_def)
  from T[of "[stray_item]"] stray
  have 3: "renderAllCells example_options ?nb [stray_item] example_page = ([stray_item], example_page)"
    by simp
  from 0 1 2 3 show ?thesis by simp
qed

text \<open>
  C9 does not hold of the busy indicator this code builds.  buildButtonBusySpinner
  gives the indicator the class \<^verbatim>\<open>thebe-busy\<close>; getButtonsBusy looks for the class name
  \<^verbatim>\<open>.thebe-busy\<close>, with the dot of a selector, which no element built here has.  On
  the page rendered for cell a the indicator (node 4) is there, getButtonsBusy finds
  nothing, and setButtonsBusy and the hiding callback leave the page as it is.
\<close>

theorem setButtonsBusy_misses_built_indicator:
  "(case getElementById ''a'' (document rendered_page) of
      Some cell \<Rightarrow>
        map (\<lambda>e. (node (props e), visibility (props e)))
          (filter (\<lambda>e. ''thebe-busy'' \<in> set (classList (props e))) (descendants cell)) = [(4, [])]
    | None \<Rightarrow> False) \<and>
   getButtonsBusy ''a'' rendered_page = None \<and>
   setButtonsBusy ''a'' rendered_page = rendered_page \<and>
   hide_busy ''a'' rendered_page = rendered_page"
  unfolding rendered_page_def
  by code_simp

text \<open>
  Whatever getButtonsBusy finds has the class name with the dot, and the callback of
  clearButtonsBusy does not run before its delay of 3000 milliseconds has passed.
\<close>

lemma getButtonsBusy_class:
  assumes "getButtonsBusy i w = Some busy"
  shows "''.thebe-busy'' \<in> set (classList (props busy))"
proof -
  have names: "class_names ''.thebe-busy'' = [''.thebe-busy'']"
    by (simp add: class_names_def is_space_def)
  from assms obtain cell others where "getElementsByClassName ''.thebe-busy'' cell = busy # others"
    by (auto simp: getButtonsBusy_def split: option.splits list.splits)
  then have "filter (\<lambda>d. ''.thebe-busy'' \<in> set (classList (props d))) (descendants cell) = busy # others"
    by (simp add: getElementsByClassName_def names)
  then show ?thesis by (auto dest: filter_eq_ConsD)
qed

lemma clearButtonsBusy_waits:
  assumes "ms < 3000" and "timers w = []"
  shows "document (elapse ms (clearButtonsBusy i w)) = document w"
    and "timers (elapse ms (clearButtonsBusy i w)) = [(now w + 3000, i)]"
  using assms by (simp_all add: elapse_def clearButtonsBusy_def Let_def)

end
